theory Spec2Isabelle
  imports Main
begin

section \<open>The Cloudflare DNS-01 hook (hook.py)\<close>

text \<open>
  The hook is a sequential Python script. It reads the process environment once when the
  module is loaded, then runs one operation that talks to the provider's HTTP API and to a
  DNS resolver. The embedding keeps the structure of the script: one definition per Python
  function, with the same names.

  \<^item> A Python \<open>str\<close> is a \<open>string\<close> holding the UTF-8 bytes of the text; \<open>bytes\<close> is a
    \<open>string\<close> as well. Two strs are equal exactly when their encodings are.
    Environment values are taken to be ASCII text: only the ASCII whitespace
    characters separate words in \<open>py_split\<close>.
  \<^item> A decoded JSON document is a value of \<open>json\<close>; numbers are integers (a number with
    a fraction or an exponent decodes to a float, which is left out); an object is an
    association list, read with \<open>map_of\<close>.
  \<^item> Everything the script does to the outside is an \<open>event\<close>, appended to a trace. The
    outside answers through the functions of \<open>platform\<close>, which see the whole trace so
    far: any provider or resolver behaviour is one such function.
  \<^item> An exception is the outcome \<open>Raise\<close>; \<open>sys.exit(n)\<close> is \<open>Raise (SystemExit n)\<close>.
  \<^item> The propagation loop has no bound in the source. It runs on fuel here: the outcome
    \<open>Blocked\<close> says that the loop was still polling when the fuel ran out, and the trace
    is what the script had done by then.
\<close>

subsection \<open>Values, events, outcomes\<close>

datatype json =
    JNull
  | JBool bool
  | JInt int
  | JStr string
  | JArr "json list"
  | JObj "(string \<times> json) list"

type_synonym headers = "(string \<times> string) list"

datatype exn =
    SystemExit int
  | KeyError
  | IndexError
  | ValueError
  | TypeError
  | AttributeError
  | UnicodeDecodeError
  | JSONDecodeError
  | HTTPError
  | RequestException
  | TldError

datatype level = DEBUG | INFO | ERROR

datatype http_request =
    Get string headers
  | Post string headers json
  | Delete string headers

text \<open>
  \<open>NoResponse\<close>: \<open>requests\<close> raised before a response arrived. \<open>Response status body\<close>:
  a response; \<open>body\<close> is \<open>None\<close> when the text is not JSON.
\<close>

datatype http_response =
    NoResponse
  | Response nat "json option"

datatype dns_failure = Timeout | NXDOMAIN | NoNameservers | NoAnswer | OtherDNSException

text \<open>
  \<open>Failed k msg\<close>: the resolver raised a \<open>DNSException\<close> of kind \<open>k\<close> whose text is
  \<open>msg\<close>. \<open>Answer rs\<close>: the TXT records of the answer, each the tuple of byte strings
  in \<open>rdata.strings\<close>.
\<close>

datatype dns_response =
    Failed dns_failure string
  | Answer "string list list"

datatype event =
    Log level string
  | Stdout string
  | Http http_request http_response
  | Dns "string list option" string dns_response
  | Sleep int

type_synonym trace = "event list"

text \<open>
  What the script does not define itself: the provider, the resolver, the \<open>tld\<close> library
  (\<open>None\<close>: \<open>get_fld\<close> raised), and two builtins, \<open>int\<close> on a str (\<open>None\<close>: ValueError)
  and the text \<open>str.format\<close> inserts for a value that is not a str (an int, or a decoded
  JSON value).
\<close>

record platform =
  http :: "trace \<Rightarrow> http_request \<Rightarrow> http_response"
  resolve :: "trace \<Rightarrow> string list option \<Rightarrow> string \<Rightarrow> dns_response"
  get_fld :: "string \<Rightarrow> string option"
  py_int :: "string \<Rightarrow> int option"
  py_repr :: "json \<Rightarrow> string"

datatype 'a outcome = Ret 'a | Raise exn | Blocked

type_synonym 'a io = "trace \<Rightarrow> 'a outcome \<times> trace"

definition ret :: "'a \<Rightarrow> 'a io" where
  "ret v t = (Ret v, t)"

definition raise :: "exn \<Rightarrow> 'a io" where
  "raise e t = (Raise e, t)"

definition io_bind :: "'a io \<Rightarrow> ('a \<Rightarrow> 'b io) \<Rightarrow> 'b io" where
  "io_bind m f t =
     (case m t of
        (Ret v, t') \<Rightarrow> f v t'
      | (Raise e, t') \<Rightarrow> (Raise e, t')
      | (Blocked, t') \<Rightarrow> (Blocked, t'))"

definition io_then :: "unit io \<Rightarrow> 'b io \<Rightarrow> 'b io" where
  "io_then m k = io_bind m (\<lambda>_. k)"

definition emit :: "event \<Rightarrow> unit io" where
  "emit e t = (Ret (), t @ [e])"

definition logger :: "level \<Rightarrow> string \<Rightarrow> unit io" where
  "logger l msg = emit (Log l msg)"

text \<open>
  \<open>requests.get\<close>, \<open>requests.post\<close>, \<open>requests.delete\<close>: the response as its status and
  its body, or the exception of \<open>requests\<close> when none arrived.
\<close>

definition requests :: "platform \<Rightarrow> http_request \<Rightarrow> (nat \<times> json option) io" where
  "requests x rq t =
     (case http x t rq of
        NoResponse \<Rightarrow> (Raise RequestException, t @ [Http rq NoResponse])
      | Response status body \<Rightarrow> (Ret (status, body), t @ [Http rq (Response status body)]))"

definition dns_resolver :: "platform \<Rightarrow> string list option \<Rightarrow> string \<Rightarrow> dns_response io" where
  "dns_resolver x srv name t = (let rs = resolve x t srv name in (Ret rs, t @ [Dns srv name rs]))"

text \<open>
  \<open>time.sleep\<close> raises ValueError on a negative length. (A length beyond the range of
  the platform's clock, which it rejects as well, is not told apart.)
\<close>

definition time_sleep :: "int \<Rightarrow> unit io" where
  "time_sleep n = (if n < 0 then raise ValueError else emit (Sleep n))"

subsection \<open>Python builtins the script uses\<close>

definition is_space :: "char \<Rightarrow> bool" where
  "is_space c = (let n = (of_char c :: nat) in (9 \<le> n \<and> n \<le> 13) \<or> (28 \<le> n \<and> n \<le> 32))"

text \<open>\<open>s.split()\<close>: the maximal runs of non-whitespace, in order.\<close>

function py_split :: "string \<Rightarrow> string list" where
  "py_split s =
     (case dropWhile is_space s of
        [] \<Rightarrow> []
      | c # cs \<Rightarrow> takeWhile (\<lambda>d. \<not> is_space d) (c # cs)
                 # py_split (dropWhile (\<lambda>d. \<not> is_space d) cs))"
  by pat_completeness auto
termination
proof (relation "measure length")
  show "wf (measure length)" by simp
next
  fix s :: string and c cs
  assume a: "dropWhile is_space s = c # cs"
  have "length (dropWhile (\<lambda>d. \<not> is_space d) cs) \<le> length cs"
    by (rule length_dropWhile_le)
  moreover have "length (c # cs) \<le> length s"
    using length_dropWhile_le [of is_space s] a by simp
  ultimately show "(dropWhile (\<lambda>d. \<not> is_space d) cs, s) \<in> measure length"
    by simp
qed

declare py_split.simps [simp del]

text \<open>Truth value of a decoded JSON value, as \<open>if r:\<close> tests it.\<close>

fun truthy :: "json \<Rightarrow> bool" where
  "truthy JNull = False"
| "truthy (JBool b) = b"
| "truthy (JInt n) = (n \<noteq> 0)"
| "truthy (JStr s) = (s \<noteq> [])"
| "truthy (JArr xs) = (xs \<noteq> [])"
| "truthy (JObj kvs) = (kvs \<noteq> [])"

text \<open>\<open>"{0}".format(v)\<close> for a decoded JSON value.\<close>

definition py_format :: "platform \<Rightarrow> json \<Rightarrow> string" where
  "py_format x v = (case v of JStr s \<Rightarrow> s | _ \<Rightarrow> py_repr x v)"

text \<open>\<open>v[key]\<close> with a str key.\<close>

fun getitem :: "json \<Rightarrow> string \<Rightarrow> exn + json" where
  "getitem (JObj kvs) k = (case map_of kvs k of None \<Rightarrow> Inl KeyError | Some v \<Rightarrow> Inr v)"
| "getitem _ k = Inl TypeError"

text \<open>
  \<open>v[0]['id']\<close>. \<open>v[0]\<close> raises IndexError on an empty list or str, KeyError on a dict
  (its keys are strs) and TypeError on the rest; the first character of a str has no
  \<open>['id']\<close> either.
\<close>

fun first_id :: "json \<Rightarrow> exn + json" where
  "first_id (JArr []) = Inl IndexError"
| "first_id (JArr (v # _)) = getitem v ''id''"
| "first_id (JStr []) = Inl IndexError"
| "first_id (JStr _) = Inl TypeError"
| "first_id (JObj _) = Inl KeyError"
| "first_id _ = Inl TypeError"

text \<open>\<open>r.raise_for_status()\<close>: a status from 400 to 599 raises.\<close>

definition raise_for_status :: "nat \<times> json option \<Rightarrow> unit io" where
  "raise_for_status r = (if 400 \<le> fst r \<and> fst r < 600 then raise HTTPError else ret ())"

text \<open>\<open>r.json()\<close>.\<close>

definition r_json :: "nat \<times> json option \<Rightarrow> json io" where
  "r_json r = (case snd r of None \<Rightarrow> raise JSONDecodeError | Some j \<Rightarrow> ret j)"

definition lift :: "exn + 'a \<Rightarrow> 'a io" where
  "lift r = (case r of Inl e \<Rightarrow> raise e | Inr v \<Rightarrow> ret v)"

text \<open>
  \<open>b.decode('utf-8')\<close>: the strict decoder accepts exactly the well-formed byte
  sequences (no overlong form, no surrogate, nothing above U+10FFFF) and raises
  UnicodeDecodeError on the rest. A str being its UTF-8 bytes, decoding returns the bytes.
\<close>

definition between :: "nat \<Rightarrow> nat \<Rightarrow> char \<Rightarrow> bool" where
  "between lo hi c = (lo \<le> of_char c \<and> (of_char c :: nat) \<le> hi)"

fun valid_utf8 :: "string \<Rightarrow> bool" where
  "valid_utf8 [] = True"
| "valid_utf8 (a # bs) =
     (let n = (of_char a :: nat) in
      if n < 0x80 then valid_utf8 bs
      else if 0xC2 \<le> n \<and> n \<le> 0xDF then
        (case bs of
           b # r \<Rightarrow> between 0x80 0xBF b \<and> valid_utf8 r
         | _ \<Rightarrow> False)
      else if 0xE0 \<le> n \<and> n \<le> 0xEF then
        (case bs of
           b # c # r \<Rightarrow>
             between (if n = 0xE0 then 0xA0 else 0x80) (if n = 0xED then 0x9F else 0xBF) b
             \<and> between 0x80 0xBF c \<and> valid_utf8 r
         | _ \<Rightarrow> False)
      else if 0xF0 \<le> n \<and> n \<le> 0xF4 then
        (case bs of
           b # c # d # r \<Rightarrow>
             between (if n = 0xF0 then 0x90 else 0x80) (if n = 0xF4 then 0x8F else 0xBF) b
             \<and> between 0x80 0xBF c \<and> between 0x80 0xBF d \<and> valid_utf8 r
         | _ \<Rightarrow> False)
      else False)"

text \<open>\<open>[b.decode('utf-8') for b in strings]\<close>: raises at the first string that is not UTF-8.\<close>

definition decode_all :: "string list \<Rightarrow> exn + string list" where
  "decode_all bs = (if list_all valid_utf8 bs then Inr bs else Inl UnicodeDecodeError)"

subsection \<open>Module state\<close>

text \<open>
  \<open>environ\<close> is \<open>os.environ\<close>, which the script only reads. \<open>dns_servers\<close> is \<open>None\<close> for
  the Python value \<open>False\<close>. \<open>logger_level\<close> is the threshold set on the logger; a \<open>Log\<close>
  event is a call of the logger, printed when its level reaches the threshold.
\<close>

record globals =
  environ :: "string \<rightharpoonup> string"
  CF_HEADERS :: "headers list"
  dns_servers :: "string list option"
  logger_level :: level

definition bearer :: "string \<Rightarrow> headers" where
  "bearer api_token =
     [(''Authorization'', ''Bearer '' @ api_token), (''Content-Type'', ''application/json'')]"

definition email_key :: "string \<times> string \<Rightarrow> headers" where
  "email_key p =
     [(''X-Auth-Email'', fst p), (''X-Auth-Key'', snd p), (''Content-Type'', ''application/json'')]"

definition sys_exit :: "int \<Rightarrow> 'a io" where
  "sys_exit n = raise (SystemExit n)"

definition no_credentials :: "headers list io" where
  "no_credentials =
     io_then (logger ERROR '' + Unable to locate Cloudflare credentials in environment!'')
    (io_then (logger ERROR
        '' + Please set the CF_API_TOKEN environment variable with your API token.'')
       (sys_exit 1))"

text \<open>Lines 22 to 41: the token variable first, the email and key pair when it is not set.\<close>

definition load_headers :: "(string \<rightharpoonup> string) \<Rightarrow> headers list io" where
  "load_headers env =
     (case env ''CF_API_TOKEN'' of
        Some toks \<Rightarrow> ret (map bearer (py_split toks))
      | None \<Rightarrow>
         (case env ''CF_EMAIL'' of
            None \<Rightarrow> no_credentials
          | Some emails \<Rightarrow>
             (case env ''CF_KEY'' of
                None \<Rightarrow> no_credentials
              | Some keys \<Rightarrow> ret (map email_key (zip (py_split emails) (py_split keys))))))"

text \<open>The module body, lines 16 to 51.\<close>

definition module_init :: "(string \<rightharpoonup> string) \<Rightarrow> globals io" where
  "module_init env =
     io_bind (load_headers env) (\<lambda>hs.
       if hs = [] then
         io_then (logger ERROR '' + No valid Cloudflare credentials found in environment!'')
           (sys_exit 1)
       else
         ret \<lparr> environ = env,
               CF_HEADERS = hs,
               dns_servers = map_option py_split (env ''CF_DNS_SERVERS''),
               logger_level =
                 (case env ''CF_DEBUG'' of
                    None \<Rightarrow> INFO
                  | Some v \<Rightarrow> if v = [] then INFO else DEBUG) \<rparr>)"

subsection \<open>Propagation check\<close>

text \<open>The loop over the answer: the first record holding the token ends it.\<close>

fun scan_rdata :: "string \<Rightarrow> string list list \<Rightarrow> exn + bool" where
  "scan_rdata token [] = Inr False"
| "scan_rdata token (strings # rest) =
     (case decode_all strings of
        Inl e \<Rightarrow> Inl e
      | Inr ss \<Rightarrow> if token \<in> set ss then Inr True else scan_rdata token rest)"

text \<open>\<open>if dns_servers:\<close> holds for a list with at least one server.\<close>

definition nameservers :: "globals \<Rightarrow> string list option" where
  "nameservers g =
     (case dns_servers g of
        None \<Rightarrow> None
      | Some [] \<Rightarrow> None
      | Some (s # ss) \<Rightarrow> Some (s # ss))"

definition has_dns_propagated :: "platform \<Rightarrow> globals \<Rightarrow> string \<Rightarrow> string \<Rightarrow> bool io" where
  "has_dns_propagated x g domain_name token =
     io_bind (dns_resolver x (nameservers g) domain_name) (\<lambda>dns_response.
       case dns_response of
         Failed k e \<Rightarrow>
           io_then (logger DEBUG ('' + '' @ e @ ''. Retrying query...'')) (ret False)
       | Answer rdatas \<Rightarrow> lift (scan_rdata token rdatas))"

subsection \<open>Provider client\<close>

text \<open>The leading underscore of the private functions is dropped in their names here.\<close>

definition api :: string where
  "api = ''https://api.cloudflare.com/client/v4/zones''"

definition zones_url :: "string \<Rightarrow> string" where
  "zones_url tld = api @ ''?name='' @ tld"

definition records_query_url :: "string \<Rightarrow> string \<Rightarrow> string \<Rightarrow> string" where
  "records_query_url zone name token =
     api @ ''/'' @ zone @ ''/dns_records?type=TXT&name='' @ name @ ''&content='' @ token"

definition records_url :: "string \<Rightarrow> string" where
  "records_url zone = api @ ''/'' @ zone @ ''/dns_records''"

definition record_url :: "string \<Rightarrow> string \<Rightarrow> string" where
  "record_url zone record = api @ ''/'' @ zone @ ''/dns_records/'' @ record"

definition red_error :: string where
  "red_error = CHR 0x1B # ''[91mERROR:'' @ CHR 0x1B # ''[0m''"

definition token_permissions_msg :: "string \<Rightarrow> string" where
  "token_permissions_msg tld =
     red_error
     @ '' None of the provided API Tokens have the required permissions for the domain ''
     @ tld"

definition zone_absent_msg :: "string \<Rightarrow> string" where
  "zone_absent_msg tld =
     red_error @ '' Domain '' @ tld @ '' not found in any Cloudflare account''"

text \<open>\<open>r.json().get('result', ())\<close>: only a dict has \<open>get\<close>; the default is the empty tuple.\<close>

definition get_result :: "json \<Rightarrow> exn + json" where
  "get_result j =
     (case j of
        JObj kvs \<Rightarrow> Inr (case map_of kvs ''result'' of None \<Rightarrow> JArr [] | Some v \<Rightarrow> v)
      | _ \<Rightarrow> Inl AttributeError)"

text \<open>The loop of \<open>_get_zone_id\<close> over \<open>CF_HEADERS\<close>; \<open>None\<close> when it runs to its end.\<close>

fun zone_loop :: "platform \<Rightarrow> string \<Rightarrow> headers list \<Rightarrow> (headers \<times> json) option io" where
  "zone_loop x url [] = ret None"
| "zone_loop x url (auth # rest) =
     io_bind (requests x (Get url auth)) (\<lambda>r.
     io_then (raise_for_status r) (
     io_bind (r_json r) (\<lambda>j.
     io_bind (lift (get_result j)) (\<lambda>res.
       if truthy res then io_bind (lift (first_id res)) (\<lambda>zid. ret (Some (auth, zid)))
       else zone_loop x url rest))))"

definition get_zone_id :: "platform \<Rightarrow> globals \<Rightarrow> string \<Rightarrow> (headers \<times> json) io" where
  "get_zone_id x g domain =
     (case get_fld x (''http://'' @ domain) of
        None \<Rightarrow> raise TldError
      | Some tld \<Rightarrow>
          io_bind (zone_loop x (zones_url tld) (CF_HEADERS g)) (\<lambda>found.
            case found of
              Some p \<Rightarrow> ret p
            | None \<Rightarrow>
                io_then
                  (logger ERROR
                     (if ''CF_API_TOKEN'' \<in> dom (environ g) then token_permissions_msg tld
                      else zone_absent_msg tld))
                  (sys_exit 1)))"

text \<open>
  \<open>_get_txt_record_id\<close>. Only the IndexError of \<open>['result'][0]\<close> is caught; the function
  then returns \<open>None\<close>, which is \<open>JNull\<close> here.
\<close>

definition get_txt_record_id ::
  "platform \<Rightarrow> headers \<Rightarrow> json \<Rightarrow> string \<Rightarrow> string \<Rightarrow> json io" where
  "get_txt_record_id x auth zone_id name token =
     io_bind (requests x (Get (records_query_url (py_format x zone_id) name token) auth)) (\<lambda>r.
     io_then (raise_for_status r) (
     io_bind (r_json r) (\<lambda>j.
     io_bind (lift (getitem j ''result'')) (\<lambda>res.
       case first_id res of
         Inl IndexError \<Rightarrow>
           io_then (logger DEBUG ('' + Unable to locate record named '' @ name)) (ret JNull)
       | Inl e \<Rightarrow> raise e
       | Inr record_id \<Rightarrow> ret record_id))))"

definition record_name :: "string \<Rightarrow> string" where
  "record_name domain = ''_acme-challenge'' @ ''.'' @ domain"

definition payload :: "string \<Rightarrow> string \<Rightarrow> json" where
  "payload name token =
     JObj [(''type'', JStr ''TXT''), (''name'', JStr name),
           (''content'', JStr token), (''ttl'', JInt 120)]"

definition create_txt_record :: "platform \<Rightarrow> globals \<Rightarrow> string list \<Rightarrow> unit io" where
  "create_txt_record x g args =
     (case args of
        [domain, challenge, token] \<Rightarrow>
          io_then (logger DEBUG ('' + Creating TXT record: '' @ domain @ '' => '' @ token))
         (io_then (logger DEBUG ('' + Challenge: '' @ challenge))
         (io_bind (get_zone_id x g domain) (\<lambda>(auth, zone_id).
          let name = record_name domain in
          io_bind (get_txt_record_id x auth zone_id name token) (\<lambda>record_id.
            if truthy record_id then
              logger DEBUG '' + TXT record exists, skipping creation.''
            else
              io_bind (requests x
                 (Post (records_url (py_format x zone_id)) auth (payload name token))) (\<lambda>r.
              io_then (raise_for_status r) (
              io_bind (r_json r) (\<lambda>j.
              io_bind (lift (getitem j ''result'')) (\<lambda>res.
              io_bind (lift (getitem res ''id'')) (\<lambda>record_id.
                logger DEBUG
                  ('' + TXT record created, CFID: '' @ py_format x record_id))))))))))
      | _ \<Rightarrow> raise ValueError)"

definition delete_txt_record :: "platform \<Rightarrow> globals \<Rightarrow> string list \<Rightarrow> unit io" where
  "delete_txt_record x g args =
     (if length args < 3 then raise IndexError
      else
        let domain = args ! 0; token = args ! 2 in
        if domain = [] then logger INFO '' + http_request() error in letsencrypt.sh?''
        else
          io_bind (get_zone_id x g domain) (\<lambda>(auth, zone_id).
          let name = record_name domain in
          io_bind (get_txt_record_id x auth zone_id name token) (\<lambda>record_id.
            if truthy record_id then
              io_bind (requests x
                 (Delete (record_url (py_format x zone_id) (py_format x record_id)) auth)) (\<lambda>r.
              io_then (raise_for_status r) (
                logger DEBUG
                  ('' + Deleted TXT '' @ name @ '', CFID '' @ py_format x record_id)))
            else
              logger DEBUG ('' + No TXT '' @ name @ '' with token '' @ token))))"

subsection \<open>Orchestration and dispatch\<close>

text \<open>\<open>range(0, n, 3)\<close>.\<close>

definition range3 :: "nat \<Rightarrow> nat list" where
  "range3 n = map (\<lambda>k. 3 * k) [0 ..< (n + 2) div 3]"

fun for_each :: "('a \<Rightarrow> unit io) \<Rightarrow> 'a list \<Rightarrow> unit io" where
  "for_each body [] = ret ()"
| "for_each body (i # rest) = io_then (body i) (for_each body rest)"

text \<open>
  The \<open>while\<close> loop of \<open>create_all_txt_records\<close>, with fuel for the number of queries it
  may still make.
\<close>

fun wait_propagated :: "nat \<Rightarrow> platform \<Rightarrow> globals \<Rightarrow> string \<Rightarrow> string \<Rightarrow> unit io" where
  "wait_propagated 0 x g name token = (\<lambda>t. (Blocked, t))"
| "wait_propagated (Suc fuel) x g name token =
     io_bind (has_dns_propagated x g name token) (\<lambda>propagated.
       if propagated then ret ()
       else
         io_then (logger INFO '' + DNS not propagated, waiting 30s...'')
        (io_then (time_sleep 30)
           (wait_propagated fuel x g name token)))"

definition poll :: "nat \<Rightarrow> platform \<Rightarrow> globals \<Rightarrow> string list \<Rightarrow> nat \<Rightarrow> unit io" where
  "poll fuel x g args i =
     (if i + 2 < length args then
        wait_propagated fuel x g (record_name (args ! i)) (args ! (i + 2))
      else raise IndexError)"

definition settling_msg :: "platform \<Rightarrow> int \<Rightarrow> string" where
  "settling_msg x settle_time =
     '' + Settling down for '' @ py_format x (JInt settle_time) @ ''s...''"

text \<open>The two loops of \<open>create_all_txt_records\<close>, and the function.\<close>

definition create_records :: "platform \<Rightarrow> globals \<Rightarrow> string list \<Rightarrow> unit io" where
  "create_records x g args =
     for_each (\<lambda>i. create_txt_record x g (take 3 (drop i args))) (range3 (length args))"

definition await_records :: "nat \<Rightarrow> platform \<Rightarrow> globals \<Rightarrow> string list \<Rightarrow> unit io" where
  "await_records fuel x g args = for_each (poll fuel x g args) (range3 (length args))"

definition create_all_txt_records ::
  "nat \<Rightarrow> platform \<Rightarrow> globals \<Rightarrow> string list \<Rightarrow> unit io" where
  "create_all_txt_records fuel x g args =
     (case py_int x (case environ g ''CF_SETTLE_TIME'' of None \<Rightarrow> ''10'' | Some v \<Rightarrow> v) of
        None \<Rightarrow> raise ValueError
      | Some settle_time \<Rightarrow>
          io_then (create_records x g args)
         (io_then (logger INFO (settling_msg x settle_time))
         (io_then (time_sleep settle_time)
           (await_records fuel x g args))))"

definition delete_all_txt_records :: "platform \<Rightarrow> globals \<Rightarrow> string list \<Rightarrow> unit io" where
  "delete_all_txt_records x g args =
     for_each (\<lambda>i. delete_txt_record x g (take 3 (drop i args))) (range3 (length args))"

definition deploy_cert :: "string list \<Rightarrow> unit io" where
  "deploy_cert args =
     (case args of
        [domain, privkey_pem, cert_pem, fullchain_pem, chain_pem, timestamp] \<Rightarrow>
          io_then (logger DEBUG ('' + ssl_certificate: '' @ fullchain_pem))
            (logger DEBUG ('' + ssl_certificate_key: '' @ privkey_pem))
      | _ \<Rightarrow> raise ValueError)"

definition unchanged_cert :: "string list \<Rightarrow> unit io" where
  "unchanged_cert args = ret ()"

text \<open>\<open>" ".join(xs)\<close>.\<close>

fun join_spaces :: "string list \<Rightarrow> string" where
  "join_spaces [] = []"
| "join_spaces [s] = s"
| "join_spaces (s # rest) = s @ '' '' @ join_spaces rest"

definition invalid_challenge :: "string list \<Rightarrow> unit io" where
  "invalid_challenge args =
     (case args of
        [] \<Rightarrow> raise IndexError
      | domain # rest \<Rightarrow>
          io_then (logger DEBUG ('' + invalid_challenge for '' @ domain))
            (logger DEBUG ('' + Full error: '' @ join_spaces rest)))"

definition yellow :: "string \<Rightarrow> string" where
  "yellow s = CHR 0x1B # ''[93m'' @ s @ CHR 0x1B # ''[0m''"

definition both_set_warning :: string where
  "both_set_warning = yellow
     ('' + Warning: Both CF_API_TOKEN and CF_EMAIL/CF_KEY environment variables are set.''
      @ CHR 0x0A
      # ''   CF_EMAIL and CF_KEY environment variables are no longer needed for this script.''
      @ CHR 0x0A
      # ''   You may consider removing them from your environment.'')"

definition email_key_notice :: string where
  "email_key_notice = yellow
     ('' + Using Cloudflare account email/key authentication''
      @ '' (CF_EMAIL and CF_KEY environment variables).''
      @ CHR 0x0A
      # ''   We are planning to deprecate this authentication method.''
      @ '' Please switch to API tokens for enhanced security.''
      @ CHR 0x0A
      # ''   See the README for more information.'')"

definition startup_hook :: "globals \<Rightarrow> string list \<Rightarrow> unit io" where
  "startup_hook g args =
     (let env = environ g in
      if ''CF_API_TOKEN'' \<in> dom env \<and> (''CF_EMAIL'' \<in> dom env \<or> ''CF_KEY'' \<in> dom env)
      then emit (Stdout both_set_warning)
      else if ''CF_EMAIL'' \<in> dom env \<or> ''CF_KEY'' \<in> dom env
      then emit (Stdout email_key_notice)
      else ret ())"

definition exit_hook :: "string list \<Rightarrow> unit io" where
  "exit_hook args = ret ()"

definition ops :: "nat \<Rightarrow> platform \<Rightarrow> globals \<Rightarrow> (string \<times> (string list \<Rightarrow> unit io)) list" where
  "ops fuel x g =
     [(''deploy_challenge'', create_all_txt_records fuel x g),
      (''clean_challenge'', delete_all_txt_records x g),
      (''deploy_cert'', deploy_cert),
      (''unchanged_cert'', unchanged_cert),
      (''invalid_challenge'', invalid_challenge),
      (''startup_hook'', startup_hook g),
      (''exit_hook'', exit_hook)]"

definition main :: "nat \<Rightarrow> platform \<Rightarrow> globals \<Rightarrow> string list \<Rightarrow> unit io" where
  "main fuel x g argv =
     (case argv of
        [] \<Rightarrow> raise IndexError
      | operation # args \<Rightarrow>
         (case map_of (ops fuel x g) operation of
            None \<Rightarrow> ret ()
          | Some handler \<Rightarrow>
              io_then (logger INFO ('' + CloudFlare hook executing: '' @ operation))
                (handler args)))"

text \<open>The script as it is run: the module body, then \<open>main(sys.argv[1:])\<close>.\<close>

definition script :: "nat \<Rightarrow> platform \<Rightarrow> (string \<rightharpoonup> string) \<Rightarrow> string list \<Rightarrow> unit io" where
  "script fuel x env argv = io_bind (module_init env) (\<lambda>g. main fuel x g argv)"

text \<open>
  The exit status of the interpreter: 0 when the script ends, the argument of
  \<open>sys.exit\<close>, 1 for an exception that nothing catches. \<open>None\<close>: the process has not
  ended.
\<close>

fun exit_status :: "unit outcome \<Rightarrow> int option" where
  "exit_status (Ret _) = Some 0"
| "exit_status (Raise (SystemExit n)) = Some n"
| "exit_status (Raise _) = Some 1"
| "exit_status Blocked = None"

section \<open>What the specification speaks of\<close>

text \<open>
  "k whitespace-separated tokens": a string is a leading run of whitespace followed by
  words, each with the run of whitespace after it. A word is not empty and holds no
  whitespace; the run between two words is not empty.
\<close>

definition blank :: "string \<Rightarrow> bool" where
  "blank s = list_all is_space s"

definition word :: "string \<Rightarrow> bool" where
  "word w = (w \<noteq> [] \<and> list_all (\<lambda>c. \<not> is_space c) w)"

fun weave :: "string \<Rightarrow> (string \<times> string) list \<Rightarrow> string" where
  "weave lead [] = lead"
| "weave lead ((w, gap) # rest) = lead @ w @ weave gap rest"

fun well_spaced :: "(string \<times> string) list \<Rightarrow> bool" where
  "well_spaced [] = True"
| "well_spaced [(w, gap)] = (word w \<and> blank gap)"
| "well_spaced ((w, gap) # p # rest) =
     (word w \<and> blank gap \<and> gap \<noteq> [] \<and> well_spaced (p # rest))"

text \<open>
  "The result set" of a response to a zone-list query: the \<open>result\<close> member of a
  response that is not an error and whose body is a JSON object (nothing when the member
  is missing). A transport failure, a status from 400 to 599 and any other body carry no
  result set.
\<close>

definition result_set :: "http_response \<Rightarrow> json option" where
  "result_set rs =
     (case rs of
        NoResponse \<Rightarrow> None
      | Response status body \<Rightarrow>
          if 400 \<le> status \<and> status < 600 then None
          else (case body of
                  Some (JObj kvs) \<Rightarrow>
                    Some (case map_of kvs ''result'' of None \<Rightarrow> JArr [] | Some v \<Rightarrow> v)
                | _ \<Rightarrow> None))"

definition empty_result :: "http_response \<Rightarrow> bool" where
  "empty_result rs = (case result_set rs of None \<Rightarrow> False | Some res \<Rightarrow> \<not> truthy res)"

text \<open>
  The trace after one zone-list query for each context of \<open>hs\<close>, in order, and the
  response to query number \<open>j\<close> of such a run.
\<close>

fun query_all :: "platform \<Rightarrow> string \<Rightarrow> headers list \<Rightarrow> trace \<Rightarrow> trace" where
  "query_all x url [] t = t"
| "query_all x url (auth # rest) t =
     query_all x url rest (t @ [Http (Get url auth) (http x t (Get url auth))])"

definition zone_response :: "platform \<Rightarrow> string \<Rightarrow> headers list \<Rightarrow> trace \<Rightarrow> nat \<Rightarrow> http_response" where
  "zone_response x url hs t j = http x (query_all x url (take j hs) t) (Get url (hs ! j))"

text \<open>
  \<open>adds P m\<close>: whatever the trace before, \<open>m\<close> only appends events, and each of them
  satisfies \<open>P\<close>.
\<close>

definition adds :: "(event \<Rightarrow> bool) \<Rightarrow> 'a io \<Rightarrow> bool" where
  "adds P m = (\<forall>t. \<exists>evs. snd (m t) = t @ evs \<and> list_all P evs)"

definition is_log :: "event \<Rightarrow> bool" where
  "is_log e = (case e of Log l m \<Rightarrow> True | _ \<Rightarrow> False)"

text \<open>
  The events of the record operations for a domain and a token. A zone lookup logs or
  queries the zone list under the registrable domain. A create call may also look the
  record up under the name \<open>_acme-challenge.\<close> followed by the domain, and post the
  payload with that name, the type TXT and the TTL 120. After its zone lookup, a delete
  call does nothing, or looks the record up under that name, or looks it up and deletes
  the record whose id the lookup returned, in the same zone.
\<close>

definition zone_step :: "platform \<Rightarrow> string \<Rightarrow> event \<Rightarrow> bool" where
  "zone_step x domain e =
     (case e of
        Log l m \<Rightarrow> True
      | Http (Get url auth) rs \<Rightarrow>
          map_option zones_url (get_fld x (''http://'' @ domain)) = Some url
      | _ \<Rightarrow> False)"

definition create_step :: "platform \<Rightarrow> string \<Rightarrow> string \<Rightarrow> event \<Rightarrow> bool" where
  "create_step x domain token e =
     (case e of
        Log l m \<Rightarrow> True
      | Http (Get url auth) rs \<Rightarrow>
          map_option zones_url (get_fld x (''http://'' @ domain)) = Some url
        \<or> (\<exists>zone. url = records_query_url zone (''_acme-challenge.'' @ domain) token)
      | Http (Post url auth body) rs \<Rightarrow>
          (\<exists>zone. url = records_url zone)
        \<and> body = JObj [(''type'', JStr ''TXT''),
                       (''name'', JStr (''_acme-challenge.'' @ domain)),
                       (''content'', JStr token),
                       (''ttl'', JInt 120)]
      | _ \<Rightarrow> False)"

definition delete_tail :: "platform \<Rightarrow> string \<Rightarrow> string \<Rightarrow> event list \<Rightarrow> bool" where
  "delete_tail x domain token tail =
     (tail = []
    \<or> (\<exists>zone auth rs logs.
          tail = Http (Get (records_query_url zone (''_acme-challenge.'' @ domain) token) auth) rs
                 # logs
        \<and> list_all is_log logs)
    \<or> (\<exists>zone auth status j res record_id rs logs.
          tail = Http (Get (records_query_url zone (''_acme-challenge.'' @ domain) token) auth)
                      (Response status (Some j))
                 # Http (Delete (record_url zone (py_format x record_id)) auth) rs
                 # logs
        \<and> getitem j ''result'' = Inr res \<and> first_id res = Inr record_id
        \<and> list_all is_log logs))"

text \<open>
  Idempotence is stated against a provider that nobody else changes. \<open>found_id\<close> is what
  \<open>_get_txt_record_id\<close> returns for the response to its query, and \<open>new_id\<close> the id that
  \<open>create_txt_record\<close> reads from the response to its create request. \<open>created\<close> says
  that among some events a create request for the record was answered without an error
  status. A provider is unchanged from a trace on when, after any further events that
  hold no delete request, it lists the zone for the first context, answers every create
  request for the record with an id, and finds the record, with an id that counts as
  true, exactly when it was created among these events.
\<close>

definition ok_status :: "nat \<Rightarrow> bool" where
  "ok_status status = (\<not> (400 \<le> status \<and> status < 600))"

definition found_id :: "http_response \<Rightarrow> exn + json" where
  "found_id rs =
     (case rs of
        NoResponse \<Rightarrow> Inl RequestException
      | Response status body \<Rightarrow>
          if \<not> ok_status status then Inl HTTPError
          else (case body of
                  None \<Rightarrow> Inl JSONDecodeError
                | Some j \<Rightarrow>
                   (case getitem j ''result'' of
                      Inl e \<Rightarrow> Inl e
                    | Inr res \<Rightarrow>
                       (case first_id res of
                          Inl IndexError \<Rightarrow> Inr JNull
                        | Inl e \<Rightarrow> Inl e
                        | Inr record_id \<Rightarrow> Inr record_id))))"

definition new_id :: "http_response \<Rightarrow> exn + json" where
  "new_id rs =
     (case rs of
        NoResponse \<Rightarrow> Inl RequestException
      | Response status body \<Rightarrow>
          if \<not> ok_status status then Inl HTTPError
          else (case body of
                  None \<Rightarrow> Inl JSONDecodeError
                | Some j \<Rightarrow>
                   (case getitem j ''result'' of
                      Inl e \<Rightarrow> Inl e
                    | Inr res \<Rightarrow> getitem res ''id'')))"

definition is_post :: "event \<Rightarrow> bool" where
  "is_post e = (case e of Http (Post url auth body) rs \<Rightarrow> True | _ \<Rightarrow> False)"

definition is_delete :: "event \<Rightarrow> bool" where
  "is_delete e = (case e of Http (Delete url auth) rs \<Rightarrow> True | _ \<Rightarrow> False)"

definition created :: "string \<Rightarrow> json \<Rightarrow> event list \<Rightarrow> bool" where
  "created url body evs =
     list_ex (\<lambda>e. case e of
                    Http (Post u auth b) (Response status j) \<Rightarrow>
                      u = url \<and> b = body \<and> ok_status status
                  | _ \<Rightarrow> False) evs"

definition unchanged_provider ::
  "platform \<Rightarrow> trace \<Rightarrow> string \<Rightarrow> headers \<Rightarrow> json \<Rightarrow> string \<Rightarrow> string \<Rightarrow> bool" where
  "unchanged_provider x t tld auth zone name token =
     (\<forall>evs. list_all (\<lambda>e. \<not> is_delete e) evs \<longrightarrow>
        (\<exists>zres. result_set (http x (t @ evs) (Get (zones_url tld) auth)) = Some zres
               \<and> truthy zres \<and> first_id zres = Inr zone)
      \<and> (\<exists>record_id.
            found_id (http x (t @ evs)
                        (Get (records_query_url (py_format x zone) name token) auth))
              = Inr record_id
          \<and> truthy record_id
              = created (records_url (py_format x zone)) (payload name token) evs)
      \<and> (\<exists>record_id.
            new_id (http x (t @ evs)
                      (Post (records_url (py_format x zone)) auth (payload name token)))
              = Inr record_id))"

text \<open>
  The order of a batch. \<open>domains\<close> are the record names and tokens of a flat list of
  triples, in input order. \<open>propagated\<close> says that \<open>_has_dns_propagated\<close> returns \<open>True\<close>
  on a resolver response. \<open>polls\<close> reads the queries and sleeps of a poll phase (its
  events without the log lines) against the domains still to confirm: each query must
  be for the first of them; a query answered with the token confirms it and moves on to
  the next; after any other query the run either stops or sleeps 30 seconds and queries
  the same name again. The result is the list of domains not confirmed yet, or \<open>None\<close>
  when the events do not have this form.
\<close>

definition domain_at :: "string list \<Rightarrow> nat \<Rightarrow> string \<times> string" where
  "domain_at args i = (''_acme-challenge.'' @ args ! i, args ! (i + 2))"

definition domains :: "string list \<Rightarrow> (string \<times> string) list" where
  "domains args = map (domain_at args) (range3 (length args))"

definition propagated :: "string \<Rightarrow> dns_response \<Rightarrow> bool" where
  "propagated token resp =
     (case resp of Failed k e \<Rightarrow> False | Answer rds \<Rightarrow> scan_rdata token rds = Inr True)"

fun polls :: "(string \<times> string) list \<Rightarrow> event list \<Rightarrow> (string \<times> string) list option" where
  "polls ds [] = Some ds"
| "polls [] (e # es) = None"
| "polls ((name, token) # ds) (Dns srv q resp # es) =
     (if q \<noteq> name then None
      else if propagated token resp then polls ds es
      else (case es of
              [] \<Rightarrow> Some ((name, token) # ds)
            | Sleep n # es' \<Rightarrow> if n = 30 then polls ((name, token) # ds) es' else None
            | _ \<Rightarrow> None))"
| "polls ((name, token) # ds) (_ # es) = None"

definition provider_or_log :: "event \<Rightarrow> bool" where
  "provider_or_log e = (case e of Http rq rs \<Rightarrow> True | Log l m \<Rightarrow> True | _ \<Rightarrow> False)"

definition poll_or_log :: "event \<Rightarrow> bool" where
  "poll_or_log e =
     (case e of Dns srv q rs \<Rightarrow> True | Log l m \<Rightarrow> True | Sleep n \<Rightarrow> n = 30 | _ \<Rightarrow> False)"

section \<open>A platform to run the script on\<close>

text \<open>
  The examples run against this platform. The provider knows the zone \<open>example.com\<close>
  under the id \<open>z1\<close> and lists no zone under another name. It keeps at most one TXT
  record, \<open>r1\<close>: a lookup finds it from an answered create request on, until an
  answered delete request. The resolver does not know the record name at the first
  query and returns two TXT records from the second query on. \<open>int\<close> reads digit
  strings; integers are printed in decimal.
\<close>

definition digit :: "char \<Rightarrow> bool" where
  "digit c = (48 \<le> (of_char c :: nat) \<and> (of_char c :: nat) \<le> 57)"

definition read_decimal :: "string \<Rightarrow> int option" where
  "read_decimal s =
     (if s \<noteq> [] \<and> list_all digit s
      then Some (int (foldl (\<lambda>a c. 10 * a + (of_char c - 48)) 0 s))
      else None)"

function show_nat :: "nat \<Rightarrow> string" where
  "show_nat n =
     (if n < 10 then [char_of (48 + n)]
      else show_nat (n div 10) @ [char_of (48 + n mod 10)])"
  by pat_completeness auto
termination
  by (relation "measure id") auto

declare show_nat.simps [simp del]

definition example_repr :: "json \<Rightarrow> string" where
  "example_repr v =
     (case v of
        JInt n \<Rightarrow> if n < 0 then ''-'' @ show_nat (nat (- n)) else show_nat (nat n)
      | JBool b \<Rightarrow> if b then ''True'' else ''False''
      | _ \<Rightarrow> ''None'')"

definition example_name :: string where
  "example_name = ''_acme-challenge.example.com''"

definition record_step :: "bool \<Rightarrow> event \<Rightarrow> bool" where
  "record_step present e =
     (case e of
        Http (Post url auth body) (Response status b) \<Rightarrow>
          if url = records_url ''z1'' \<and> body = payload example_name ''tok123''
             \<and> ok_status status
          then True else present
      | Http (Delete url auth) (Response status b) \<Rightarrow>
          if url = record_url ''z1'' ''r1'' \<and> ok_status status then False else present
      | _ \<Rightarrow> present)"

definition record_present :: "trace \<Rightarrow> bool" where
  "record_present t = foldl record_step False t"

definition example_http :: "trace \<Rightarrow> http_request \<Rightarrow> http_response" where
  "example_http t rq =
     (case rq of
        Get url auth \<Rightarrow>
          if url = zones_url ''example.com'' then
            Response 200 (Some (JObj [(''success'', JBool True),
               (''result'', JArr [JObj [(''id'', JStr ''z1''), (''name'', JStr ''example.com'')]])]))
          else if url = records_query_url ''z1'' example_name ''tok123'' then
            Response 200 (Some (JObj [(''success'', JBool True),
               (''result'', if record_present t then JArr [JObj [(''id'', JStr ''r1'')]]
                            else JArr [])]))
          else if take (length (zones_url [])) url = zones_url [] then
            Response 200 (Some (JObj [(''success'', JBool True), (''result'', JArr [])]))
          else Response 404 None
      | Post url auth body \<Rightarrow>
          if url = records_url ''z1'' then
            Response 200 (Some (JObj [(''success'', JBool True),
               (''result'', JObj [(''id'', JStr ''r1'')])]))
          else Response 404 None
      | Delete url auth \<Rightarrow> Response 200 (Some (JObj [(''success'', JBool True)])))"

definition example_resolve :: "trace \<Rightarrow> string list option \<Rightarrow> string \<Rightarrow> dns_response" where
  "example_resolve t srv name =
     (if name = example_name \<and> list_ex (\<lambda>e. case e of Dns _ _ _ \<Rightarrow> True | _ \<Rightarrow> False) t
      then Answer [[''v=spf1 -all''], [''tok123'']]
      else Failed NXDOMAIN ''The DNS query name does not exist: '' )"

definition example_platform :: platform where
  "example_platform =
     \<lparr> http = example_http,
       resolve = example_resolve,
       get_fld = (\<lambda>u. if u = ''http://example.com'' then Some ''example.com''
                      else if u = ''http://example.org'' then Some ''example.org''
                      else None),
       py_int = read_decimal,
       py_repr = example_repr \<rparr>"

definition example_globals :: globals where
  "example_globals =
     \<lparr> environ = [''CF_API_TOKEN'' \<mapsto> ''tokA''],
       CF_HEADERS = [bearer ''tokA''],
       dns_servers = None,
       logger_level = INFO \<rparr>"


text \<open>
  A provider that refuses the first of two tokens with status 403 and answers the second
  as the example provider does.
\<close>

definition refusing_platform :: platform where
  "refusing_platform =
     example_platform
       \<lparr> http := (\<lambda>t rq. case rq of
                            Get url auth \<Rightarrow>
                              if auth = bearer ''tokA'' then Response 403 None
                              else example_http t rq
                          | _ \<Rightarrow> example_http t rq) \<rparr>"

definition two_token_globals :: globals where
  "two_token_globals =
     \<lparr> environ = [''CF_API_TOKEN'' \<mapsto> ''tokA tokB''],
       CF_HEADERS = [bearer ''tokA'', bearer ''tokB''],
       dns_servers = None,
       logger_level = INFO \<rparr>"

section \<open>Properties\<close>

subsection \<open>Sequencing\<close>

lemma io_bind_ret [simp]: "io_bind (ret v) f = f v"
  by (rule ext) (simp add: io_bind_def ret_def)

lemma io_bind_raise [simp]: "io_bind (raise e) f = raise e"
  by (rule ext) (simp add: io_bind_def raise_def)

lemma io_then_ret [simp]: "io_then (ret v) k = k"
  by (simp add: io_then_def)

lemma io_then_raise [simp]: "io_then (raise e) k = raise e"
  by (simp add: io_then_def)

lemma io_then_emit [simp]: "io_then (emit e) k t = k (t @ [e])"
  by (simp add: io_then_def io_bind_def emit_def)

lemma io_then_logger [simp]: "io_then (logger l m) k t = k (t @ [Log l m])"
  by (simp add: logger_def)

subsection \<open>Splitting at whitespace\<close>

lemma py_split_blank:
  assumes "\<forall>c\<in>set s. is_space c"
  shows "py_split s = []"
proof -
  have h: "dropWhile is_space s = []" using assms by simp
  show ?thesis by (subst py_split.simps) (simp only: h list.case)
qed

lemma py_split_lead: "(\<forall>c\<in>set lead. is_space c) \<Longrightarrow> py_split (lead @ s) = py_split s"
  by (subst py_split.simps, subst (2) py_split.simps) (simp add: dropWhile_append)

lemma py_split_word:
  assumes "w \<noteq> []" "\<forall>c\<in>set w. \<not> is_space c" "s = [] \<or> is_space (hd s)"
  shows "py_split (w @ s) = w # py_split s"
proof -
  obtain c cs where w: "w = c # cs" using assms(1) by (cases w) auto
  have d: "dropWhile is_space (w @ s) = w @ s" using assms(2) w by simp
  have t: "takeWhile (\<lambda>d. \<not> is_space d) (w @ s) = w"
    using assms(2,3) by (cases s) (simp_all add: takeWhile_append2)
  have "dropWhile (\<lambda>d. \<not> is_space d) (cs @ s) = s"
    using assms(2,3) w by (cases s) (simp_all add: dropWhile_append2)
  then have "py_split (dropWhile (\<lambda>d. \<not> is_space d) (cs @ s)) = py_split s" by simp
  then show ?thesis
    using d t w by (subst py_split.simps) simp
qed

lemma weave_starts_blank:
  "blank lead \<Longrightarrow> lead \<noteq> [] \<Longrightarrow> weave lead ps = [] \<or> is_space (hd (weave lead ps))"
  by (cases ps; cases lead) (auto simp: blank_def)

lemma py_split_weave:
  "blank lead \<Longrightarrow> well_spaced ps \<Longrightarrow> py_split (weave lead ps) = map fst ps"
proof (induction ps arbitrary: lead rule: well_spaced.induct)
  case 1
  then show ?case by (simp add: py_split_blank blank_def list_all_iff)
next
  case (2 w gap)
  then have "gap = [] \<or> is_space (hd gap)"
    by (cases gap) (auto simp: blank_def)
  with 2 have "py_split (w @ gap) = w # py_split gap"
    by (intro py_split_word) (auto simp: word_def list_all_iff)
  with 2 show ?case
    by (simp add: py_split_lead py_split_blank blank_def list_all_iff)
next
  case (3 w gap p rest)
  then have tl: "py_split (weave gap (p # rest)) = map fst (p # rest)" by simp
  have "weave gap (p # rest) = [] \<or> is_space (hd (weave gap (p # rest)))"
    using 3 by (intro weave_starts_blank) auto
  then have "py_split (w @ weave gap (p # rest)) = w # py_split (weave gap (p # rest))"
    using 3 by (intro py_split_word) (auto simp: word_def list_all_iff)
  with tl 3(2) show ?case
    by (simp add: py_split_lead blank_def list_all_iff)
qed

text \<open>
  Every string reads as words between runs of whitespace, so \<open>py_split\<close> returns the
  whitespace-separated words of any string.
\<close>

lemma weave_head:
  "well_spaced ps \<Longrightarrow> ps \<noteq> [] \<Longrightarrow> weave [] ps \<noteq> [] \<and> \<not> is_space (hd (weave [] ps))"
  by (cases ps rule: well_spaced.cases) (auto simp: word_def list_all_iff)

lemma weave_complete: "\<exists>lead ps. s = weave lead ps \<and> blank lead \<and> well_spaced ps"
proof (induction "length s" arbitrary: s rule: less_induct)
  case less
  let ?lead = "takeWhile is_space s"
  let ?r = "dropWhile is_space s"
  have bl: "blank ?lead"
    unfolding blank_def list_all_iff by (auto dest: set_takeWhileD)
  show ?case
  proof (cases ?r)
    case Nil
    then have "s = weave ?lead []"
      using takeWhile_dropWhile_id [of is_space s] by (simp only: weave.simps append_Nil2)
    with bl show ?thesis by (intro exI [of _ ?lead] exI [of _ "[]"]) simp
  next
    case (Cons c cs)
    let ?w = "takeWhile (\<lambda>d. \<not> is_space d) ?r"
    let ?r' = "dropWhile (\<lambda>d. \<not> is_space d) ?r"
    have c: "\<not> is_space c" using Cons hd_dropWhile [of is_space s] by auto
    have w: "word ?w"
      unfolding word_def list_all_iff using Cons c by (auto dest: set_takeWhileD)
    have "length ?r' < length s"
      using Cons c length_dropWhile_le [of is_space s]
        length_dropWhile_le [of "\<lambda>d. \<not> is_space d" cs] by simp
    from less [OF this] obtain lead' ps' where
      r': "?r' = weave lead' ps'" "blank lead'" "well_spaced ps'" by (elim exE conjE)
    have s: "s = weave ?lead ((?w, lead') # ps')"
      using takeWhile_dropWhile_id [of is_space s]
        takeWhile_dropWhile_id [of "\<lambda>d. \<not> is_space d" ?r] r'(1) by simp
    have sp: "?r' = [] \<or> is_space (hd ?r')"
      using hd_dropWhile [of "\<lambda>d. \<not> is_space d" ?r] by auto
    have ws: "well_spaced ((?w, lead') # ps')"
    proof (cases ps')
      case Nil
      then show ?thesis using w r'(2) by simp
    next
      case (Cons p rest)
      have "lead' \<noteq> []"
      proof
        assume "lead' = []"
        with r'(1) weave_head [OF r'(3)] Cons sp show False by auto
      qed
      then show ?thesis using w r'(2,3) Cons by (cases p) simp
    qed
    from s bl ws show ?thesis by (intro exI conjI)
  qed
qed

lemma py_split_words:
  "\<exists>lead ps. s = weave lead ps \<and> blank lead \<and> well_spaced ps \<and> py_split s = map fst ps"
proof -
  from weave_complete [of s] obtain lead ps where
    h: "s = weave lead ps" "blank lead" "well_spaced ps" by (elim exE conjE)
  from py_split_weave [OF h(2,3)] h show ?thesis by (intro exI conjI) simp_all
qed

subsection \<open>Credentials\<close>





text \<open>
  C6. With \<open>CF_API_TOKEN\<close> not set and \<open>CF_EMAIL\<close> or \<open>CF_KEY\<close> not set, the script
  logs two errors and exits with status 1 while the module is loaded: \<open>main\<close> does not
  run, and the trace gains no request to the provider and no DNS query.
\<close>

theorem no_credentials_exit:
  assumes "env ''CF_API_TOKEN'' = None" and "env ''CF_EMAIL'' = None \<or> env ''CF_KEY'' = None"
  shows "script fuel x env argv t =
           (Raise (SystemExit 1),
            t @ [Log ERROR '' + Unable to locate Cloudflare credentials in environment!'',
                 Log ERROR
                   '' + Please set the CF_API_TOKEN environment variable with your API token.''])
       \<and> exit_status (fst (script fuel x env argv t)) = Some 1"
proof -
  have "load_headers env t =
           (Raise (SystemExit 1),
            t @ [Log ERROR '' + Unable to locate Cloudflare credentials in environment!'',
                 Log ERROR
                   '' + Please set the CF_API_TOKEN environment variable with your API token.''])"
    using assms
    by (auto simp: load_headers_def no_credentials_def sys_exit_def raise_def
             split: option.splits)
  then show ?thesis
    by (simp add: script_def module_init_def io_bind_def)
qed

text \<open>A run with \<open>CF_EMAIL\<close> set and nothing else.\<close>

theorem no_credentials_exit_witness:
  "script 0 example_platform [''CF_EMAIL'' \<mapsto> ''a@b.c'']
      [''deploy_challenge'', ''example.com'', ''c'', ''tok123''] []
    = (Raise (SystemExit 1),
            [Log ERROR '' + Unable to locate Cloudflare credentials in environment!'',
                 Log ERROR
                   '' + Please set the CF_API_TOKEN environment variable with your API token.''])"
  using no_credentials_exit [of "[''CF_EMAIL'' \<mapsto> ''a@b.c'']" 0 example_platform
      "[''deploy_challenge'', ''example.com'', ''c'', ''tok123'']" "[]"]
  by simp



subsection \<open>Deleting with an empty domain\<close>




subsection \<open>Propagation check\<close>





lemma has_dns_propagated_run:
  "has_dns_propagated x g name token t =
     (case resolve x t (nameservers g) name of
        Failed k e \<Rightarrow>
          (Ret False, t @ [Dns (nameservers g) name (Failed k e),
                           Log DEBUG ('' + '' @ e @ ''. Retrying query...'')])
      | Answer rds \<Rightarrow>
          (case scan_rdata token rds of Inl e \<Rightarrow> Raise e | Inr b \<Rightarrow> Ret b,
           t @ [Dns (nameservers g) name (Answer rds)]))"
  by (simp add: has_dns_propagated_def io_bind_def dns_resolver_def lift_def ret_def raise_def
      Let_def split: dns_response.splits sum.splits)





subsection \<open>Zone lookup\<close>

lemma requests_Response:
  "http x t rq = Response status body \<Longrightarrow>
     requests x rq t = (Ret (status, body), t @ [Http rq (Response status body)])"
  by (simp add: requests_def)

lemma requests_NoResponse:
  "http x t rq = NoResponse \<Longrightarrow>
     requests x rq t = (Raise RequestException, t @ [Http rq NoResponse])"
  by (simp add: requests_def)

lemma zone_loop_step:
  assumes "result_set (http x t (Get url auth)) = Some res"
  shows "zone_loop x url (auth # rest) t =
          (if truthy res then
             (case first_id res of
                Inl e \<Rightarrow> (Raise e, t @ [Http (Get url auth) (http x t (Get url auth))])
              | Inr z \<Rightarrow> (Ret (Some (auth, z)), t @ [Http (Get url auth) (http x t (Get url auth))]))
           else zone_loop x url rest (t @ [Http (Get url auth) (http x t (Get url auth))]))"
proof -
  from assms obtain status kvs where
    r: "http x t (Get url auth) = Response status (Some (JObj kvs))"
    and s: "\<not> (400 \<le> status \<and> status < 600)"
    and v: "res = (case map_of kvs ''result'' of None \<Rightarrow> JArr [] | Some v \<Rightarrow> v)"
    by (auto simp: result_set_def split: http_response.splits if_splits option.splits json.splits)
  from s have ok: "(400 \<le> status \<and> status < 600) = False" by simp
  show ?thesis
    using v
    by (simp add: r requests_Response [OF r] io_bind_def io_then_def raise_for_status_def ok
          r_json_def get_result_def lift_def ret_def raise_def split: sum.splits)
qed

lemma zone_loop_no_result_set:
  assumes "result_set (http x t (Get url auth)) = None"
  shows "\<exists>e. zone_loop x url (auth # rest) t
               = (Raise e, t @ [Http (Get url auth) (http x t (Get url auth))])
           \<and> e \<in> {RequestException, HTTPError, JSONDecodeError, AttributeError}"
proof (cases "http x t (Get url auth)")
  case NoResponse
  then show ?thesis by (simp add: requests_NoResponse io_bind_def)
next
  case r: (Response status body)
  show ?thesis
  proof (cases "400 \<le> status \<and> status < 600")
    case True
    then show ?thesis
      by (simp add: r requests_Response [OF r] io_bind_def io_then_def raise_for_status_def
            raise_def)
  next
    case False
    then have ok: "(400 \<le> status \<and> status < 600) = False" by simp
    from assms r False have "body = None \<or> (\<exists>j. body = Some j \<and> get_result j = Inl AttributeError)"
      by (auto simp: result_set_def get_result_def split: option.splits json.splits)
    then show ?thesis
      by (auto simp: r requests_Response [OF r] io_bind_def io_then_def raise_for_status_def ok
            r_json_def lift_def ret_def raise_def)
  qed
qed

lemma zone_response_0: "zone_response x url (h # hs) t 0 = http x t (Get url h)"
  by (simp add: zone_response_def)

lemma zone_response_Suc:
  "zone_response x url (h # hs) t (Suc j)
     = zone_response x url hs (t @ [Http (Get url h) (http x t (Get url h))]) j"
  by (simp add: zone_response_def)

lemma zone_loop_empty:
  "\<forall>j<length hs. empty_result (zone_response x url hs t j) \<Longrightarrow>
     zone_loop x url hs t = (Ret None, query_all x url hs t)"
proof (induction hs arbitrary: t)
  case Nil
  then show ?case by (simp add: ret_def)
next
  case (Cons h hs)
  from Cons.prems have "empty_result (zone_response x url (h # hs) t 0)" by blast
  then obtain res where r: "result_set (http x t (Get url h)) = Some res" "\<not> truthy res"
    by (auto simp: empty_result_def zone_response_0 split: option.splits)
  have "\<forall>j<length hs. empty_result
          (zone_response x url hs (t @ [Http (Get url h) (http x t (Get url h))]) j)"
    using Cons.prems by (auto simp: zone_response_Suc [symmetric])
  from Cons.IH [OF this] r show ?case
    by (simp add: zone_loop_step [OF r(1)] del: zone_loop.simps)
qed

lemma zone_loop_found:
  "i < length hs \<Longrightarrow> \<forall>j<i. empty_result (zone_response x url hs t j) \<Longrightarrow>
   result_set (zone_response x url hs t i) = Some res \<Longrightarrow> truthy res \<Longrightarrow>
   first_id res = Inr z \<Longrightarrow>
     zone_loop x url hs t = (Ret (Some (hs ! i, z)), query_all x url (take (Suc i) hs) t)"
proof (induction hs arbitrary: t i)
  case Nil
  then show ?case by simp
next
  case (Cons h hs)
  show ?case
  proof (cases i)
    case 0
    with Cons.prems have r: "result_set (http x t (Get url h)) = Some res"
      by (simp add: zone_response_0)
    show ?thesis using Cons.prems(4,5) 0
      by (simp add: zone_loop_step [OF r] del: zone_loop.simps)
  next
    case (Suc i')
    with Cons.prems have "empty_result (zone_response x url (h # hs) t 0)" by blast
    then obtain res0 where r: "result_set (http x t (Get url h)) = Some res0" "\<not> truthy res0"
      by (auto simp: empty_result_def zone_response_0 split: option.splits)
    let ?t = "t @ [Http (Get url h) (http x t (Get url h))]"
    have a: "i' < length hs" using Cons.prems(1) Suc by simp
    have b: "\<forall>j<i'. empty_result (zone_response x url hs ?t j)"
      using Cons.prems(2) Suc by (auto simp: zone_response_Suc [symmetric])
    have c: "result_set (zone_response x url hs ?t i') = Some res"
      using Cons.prems(3) Suc by (simp add: zone_response_Suc)
    from Cons.IH [OF a b c Cons.prems(4,5)] r Suc show ?thesis
      by (simp add: zone_loop_step [OF r(1)] del: zone_loop.simps)
  qed
qed

lemma query_all_events:
  "\<exists>resps. length resps = length hs
     \<and> query_all x url hs t = t @ map (\<lambda>(h, rs). Http (Get url h) rs) (zip hs resps)"
proof (induction hs arbitrary: t)
  case Nil
  then show ?case by simp
next
  case (Cons h hs)
  from Cons.IH [of "t @ [Http (Get url h) (http x t (Get url h))]"]
  obtain resps where "length resps = length hs"
     "query_all x url hs (t @ [Http (Get url h) (http x t (Get url h))])
        = (t @ [Http (Get url h) (http x t (Get url h))])
          @ map (\<lambda>(h, rs). Http (Get url h) rs) (zip hs resps)" by blast
  then show ?case
    by (intro exI [of _ "http x t (Get url h) # resps"]) simp
qed

lemma module_init_auth_mode:
  assumes "module_init env t0 = (Ret g, t1)"
  shows "environ g = env \<and>
     (case env ''CF_API_TOKEN'' of
        Some s \<Rightarrow> CF_HEADERS g = map bearer (py_split s)
      | None \<Rightarrow> (\<exists>e k. env ''CF_EMAIL'' = Some e \<and> env ''CF_KEY'' = Some k
                   \<and> CF_HEADERS g = map email_key (zip (py_split e) (py_split k))))"
  using assms
  by (auto simp: module_init_def load_headers_def no_credentials_def io_bind_def ret_def
        io_then_def logger_def emit_def sys_exit_def raise_def
      split: option.splits if_splits)

lemma query_all_append:
  "query_all x url (as @ bs) t = query_all x url bs (query_all x url as t)"
  by (induction as arbitrary: t) simp_all

lemma query_all_snoc:
  assumes "i < length hs"
  shows "query_all x url (take (Suc i) hs) t
           = query_all x url (take i hs) t
             @ [Http (Get url (hs ! i)) (zone_response x url hs t i)]"
proof -
  have "take (Suc i) hs = take i hs @ [hs ! i]"
    using assms by (rule take_Suc_conv_app_nth)
  then show ?thesis by (simp add: query_all_append zone_response_def)
qed

lemma zone_loop_skip:
  "i \<le> length hs \<Longrightarrow> \<forall>j<i. empty_result (zone_response x url hs t j) \<Longrightarrow>
     zone_loop x url hs t = zone_loop x url (drop i hs) (query_all x url (take i hs) t)"
proof (induction hs arbitrary: t i)
  case Nil
  then show ?case by simp
next
  case (Cons h hs)
  show ?case
  proof (cases i)
    case 0
    then show ?thesis by simp
  next
    case (Suc i')
    with Cons.prems have "empty_result (zone_response x url (h # hs) t 0)" by blast
    then obtain res0 where r: "result_set (http x t (Get url h)) = Some res0" "\<not> truthy res0"
      by (auto simp: empty_result_def zone_response_0 split: option.splits)
    let ?t = "t @ [Http (Get url h) (http x t (Get url h))]"
    have a: "i' \<le> length hs" using Cons.prems(1) Suc by simp
    have b: "\<forall>j<i'. empty_result (zone_response x url hs ?t j)"
      using Cons.prems(2) Suc by (auto simp: zone_response_Suc [symmetric])
    from Cons.IH [OF a b] r Suc show ?thesis
      by (simp add: zone_loop_step [OF r(1)] del: zone_loop.simps)
  qed
qed

lemma zone_loop_at:
  assumes "i < length hs" and "\<forall>j<i. empty_result (zone_response x url hs t j)"
  shows "zone_loop x url hs t
           = zone_loop x url (hs ! i # drop (Suc i) hs) (query_all x url (take i hs) t)"
    and "http x (query_all x url (take i hs) t) (Get url (hs ! i)) = zone_response x url hs t i"
proof -
  have "drop i hs = hs ! i # drop (Suc i) hs"
    using assms(1) by (simp add: Cons_nth_drop_Suc)
  with zone_loop_skip [of i hs x url t] assms
  show "zone_loop x url hs t
           = zone_loop x url (hs ! i # drop (Suc i) hs) (query_all x url (take i hs) t)"
    by simp
  show "http x (query_all x url (take i hs) t) (Get url (hs ! i)) = zone_response x url hs t i"
    by (simp add: zone_response_def)
qed

lemma zone_loop_failed:
  assumes "i < length hs" and "\<forall>j<i. empty_result (zone_response x url hs t j)"
    and "result_set (zone_response x url hs t i) = None"
  shows "\<exists>e. zone_loop x url hs t = (Raise e, query_all x url (take (Suc i) hs) t)
           \<and> e \<in> {RequestException, HTTPError, JSONDecodeError, AttributeError}"
proof -
  let ?t = "query_all x url (take i hs) t"
  have n: "result_set (http x ?t (Get url (hs ! i))) = None"
    using assms(3) zone_loop_at(2) [OF assms(1,2)] by simp
  from zone_loop_no_result_set [OF n, of "drop (Suc i) hs"] obtain e where
    "zone_loop x url (hs ! i # drop (Suc i) hs) ?t
       = (Raise e, ?t @ [Http (Get url (hs ! i)) (http x ?t (Get url (hs ! i)))])"
    "e \<in> {RequestException, HTTPError, JSONDecodeError, AttributeError}"
    by (elim exE conjE)
  then show ?thesis
    unfolding zone_loop_at(1) [OF assms(1,2)] query_all_snoc [OF assms(1)]
      zone_loop_at(2) [OF assms(1,2)]
    by (intro exI conjI)
qed

lemma zone_loop_malformed:
  assumes "i < length hs" and "\<forall>j<i. empty_result (zone_response x url hs t j)"
    and "result_set (zone_response x url hs t i) = Some res" and "truthy res"
    and "first_id res = Inl e"
  shows "zone_loop x url hs t = (Raise e, query_all x url (take (Suc i) hs) t)"
proof -
  let ?t = "query_all x url (take i hs) t"
  have n: "result_set (http x ?t (Get url (hs ! i))) = Some res"
    using assms(3) zone_loop_at(2) [OF assms(1,2)] by simp
  show ?thesis
    unfolding zone_loop_at(1) [OF assms(1,2)] query_all_snoc [OF assms(1)]
    using assms(4,5) zone_loop_at(2) [OF assms(1,2)]
    by (simp add: zone_loop_step [OF n] del: zone_loop.simps)
qed

lemma get_zone_id_raise:
  "get_fld x (''http://'' @ domain) = Some tld \<Longrightarrow>
   zone_loop x (zones_url tld) (CF_HEADERS g) t = (Raise e, t') \<Longrightarrow>
     get_zone_id x g domain t = (Raise e, t')"
  by (simp add: get_zone_id_def io_bind_def)

text \<open>
  C3, as the source has it. \<open>_get_zone_id\<close> queries the zone list with the contexts of
  \<open>CF_HEADERS\<close> in their order, one query each, until one is answered with a result set
  that is not empty: it returns that context with the id of the first zone of the set.
  When every context is answered with an empty result set it logs one error, the
  token-permissions message when \<open>CF_API_TOKEN\<close> is in the environment and the
  zone-absent message otherwise, and exits with status 1. A query that is not answered
  with a result set (no response, a status from 400 to 599, a body that is not a JSON
  object) raises at once, and so does a result set without a first zone id: the contexts
  after it are not queried and nothing is logged. A domain without a registrable domain
  raises before any query. After the module body, \<open>CF_API_TOKEN\<close> is in the
  environment exactly when the contexts are bearer contexts.
\<close>

theorem resolve_zone:
  "(case get_fld x (''http://'' @ domain) of
      None \<Rightarrow> get_zone_id x g domain t = (Raise TldError, t)
    | Some tld \<Rightarrow>
        (\<forall>i res z.
            i < length (CF_HEADERS g)
          \<and> (\<forall>j<i. empty_result (zone_response x (zones_url tld) (CF_HEADERS g) t j))
          \<and> result_set (zone_response x (zones_url tld) (CF_HEADERS g) t i) = Some res
          \<and> truthy res \<and> first_id res = Inr z
          \<longrightarrow> get_zone_id x g domain t
                = (Ret (CF_HEADERS g ! i, z),
                   query_all x (zones_url tld) (take (Suc i) (CF_HEADERS g)) t))
      \<and> ((\<forall>j<length (CF_HEADERS g).
              empty_result (zone_response x (zones_url tld) (CF_HEADERS g) t j))
          \<longrightarrow> get_zone_id x g domain t
                = (Raise (SystemExit 1),
                   query_all x (zones_url tld) (CF_HEADERS g) t
                   @ [Log ERROR (if ''CF_API_TOKEN'' \<in> dom (environ g)
                                 then token_permissions_msg tld else zone_absent_msg tld)])
            \<and> exit_status (Raise (SystemExit 1)) = Some 1)
      \<and> (\<forall>i. i < length (CF_HEADERS g)
          \<and> (\<forall>j<i. empty_result (zone_response x (zones_url tld) (CF_HEADERS g) t j))
          \<and> result_set (zone_response x (zones_url tld) (CF_HEADERS g) t i) = None
          \<longrightarrow> (\<exists>e. get_zone_id x g domain t
                      = (Raise e, query_all x (zones_url tld) (take (Suc i) (CF_HEADERS g)) t)
                  \<and> e \<in> {RequestException, HTTPError, JSONDecodeError, AttributeError}))
      \<and> (\<forall>i res e.
            i < length (CF_HEADERS g)
          \<and> (\<forall>j<i. empty_result (zone_response x (zones_url tld) (CF_HEADERS g) t j))
          \<and> result_set (zone_response x (zones_url tld) (CF_HEADERS g) t i) = Some res
          \<and> truthy res \<and> first_id res = Inl e
          \<longrightarrow> get_zone_id x g domain t
                = (Raise e, query_all x (zones_url tld) (take (Suc i) (CF_HEADERS g)) t))
      \<and> (\<forall>n. \<exists>resps. length resps = length (take n (CF_HEADERS g))
              \<and> query_all x (zones_url tld) (take n (CF_HEADERS g)) t
                  = t @ map (\<lambda>(h, rs). Http (Get (zones_url tld) h) rs)
                          (zip (take n (CF_HEADERS g)) resps)))
 \<and> (\<forall>env t0 t1. module_init env t0 = (Ret g, t1) \<longrightarrow>
        environ g = env \<and>
        (case env ''CF_API_TOKEN'' of
           Some s \<Rightarrow> CF_HEADERS g = map bearer (py_split s)
         | None \<Rightarrow> (\<exists>e k. env ''CF_EMAIL'' = Some e \<and> env ''CF_KEY'' = Some k
               \<and> CF_HEADERS g = map email_key (zip (py_split e) (py_split k)))))"
proof (rule conjI)
  show "\<forall>env t0 t1. module_init env t0 = (Ret g, t1) \<longrightarrow>
        environ g = env \<and>
        (case env ''CF_API_TOKEN'' of
           Some s \<Rightarrow> CF_HEADERS g = map bearer (py_split s)
         | None \<Rightarrow> (\<exists>e k. env ''CF_EMAIL'' = Some e \<and> env ''CF_KEY'' = Some k
               \<and> CF_HEADERS g = map email_key (zip (py_split e) (py_split k))))"
    by (intro allI impI) (rule module_init_auth_mode)
next
  let ?hs = "CF_HEADERS g"
  show "case get_fld x (''http://'' @ domain) of
      None \<Rightarrow> get_zone_id x g domain t = (Raise TldError, t)
    | Some tld \<Rightarrow>
        (\<forall>i res z.
            i < length ?hs
          \<and> (\<forall>j<i. empty_result (zone_response x (zones_url tld) ?hs t j))
          \<and> result_set (zone_response x (zones_url tld) ?hs t i) = Some res
          \<and> truthy res \<and> first_id res = Inr z
          \<longrightarrow> get_zone_id x g domain t
                = (Ret (?hs ! i, z), query_all x (zones_url tld) (take (Suc i) ?hs) t))
      \<and> ((\<forall>j<length ?hs. empty_result (zone_response x (zones_url tld) ?hs t j))
          \<longrightarrow> get_zone_id x g domain t
                = (Raise (SystemExit 1),
                   query_all x (zones_url tld) ?hs t
                   @ [Log ERROR (if ''CF_API_TOKEN'' \<in> dom (environ g)
                                 then token_permissions_msg tld else zone_absent_msg tld)])
            \<and> exit_status (Raise (SystemExit 1)) = Some 1)
      \<and> (\<forall>i. i < length ?hs
          \<and> (\<forall>j<i. empty_result (zone_response x (zones_url tld) ?hs t j))
          \<and> result_set (zone_response x (zones_url tld) ?hs t i) = None
          \<longrightarrow> (\<exists>e. get_zone_id x g domain t
                      = (Raise e, query_all x (zones_url tld) (take (Suc i) ?hs) t)
                  \<and> e \<in> {RequestException, HTTPError, JSONDecodeError, AttributeError}))
      \<and> (\<forall>i res e.
            i < length ?hs
          \<and> (\<forall>j<i. empty_result (zone_response x (zones_url tld) ?hs t j))
          \<and> result_set (zone_response x (zones_url tld) ?hs t i) = Some res
          \<and> truthy res \<and> first_id res = Inl e
          \<longrightarrow> get_zone_id x g domain t
                = (Raise e, query_all x (zones_url tld) (take (Suc i) ?hs) t))
      \<and> (\<forall>n. \<exists>resps. length resps = length (take n ?hs)
              \<and> query_all x (zones_url tld) (take n ?hs) t
                  = t @ map (\<lambda>(h, rs). Http (Get (zones_url tld) h) rs)
                          (zip (take n ?hs) resps))"
  proof (cases "get_fld x (''http://'' @ domain)")
    case None
    then have "get_zone_id x g domain t = (Raise TldError, t)"
      by (simp add: get_zone_id_def raise_def)
    then show ?thesis unfolding None option.case .
  next
    case (Some tld)
    let ?url = "zones_url tld"
    have found: "get_zone_id x g domain t
                = (Ret (?hs ! i, z), query_all x ?url (take (Suc i) ?hs) t)"
      if "i < length ?hs \<and> (\<forall>j<i. empty_result (zone_response x ?url ?hs t j))
          \<and> result_set (zone_response x ?url ?hs t i) = Some res
          \<and> truthy res \<and> first_id res = Inr z" for i res z
    proof -
      from that have "zone_loop x ?url ?hs t
          = (Ret (Some (?hs ! i, z)), query_all x ?url (take (Suc i) ?hs) t)"
        by (intro zone_loop_found) auto
      then show ?thesis using Some by (simp add: get_zone_id_def io_bind_def ret_def)
    qed
    have none: "get_zone_id x g domain t
                = (Raise (SystemExit 1),
                   query_all x ?url ?hs t
                   @ [Log ERROR (if ''CF_API_TOKEN'' \<in> dom (environ g)
                                 then token_permissions_msg tld else zone_absent_msg tld)])
            \<and> exit_status (Raise (SystemExit 1)) = Some 1"
      if "\<forall>j<length ?hs. empty_result (zone_response x ?url ?hs t j)"
    proof -
      from that have "zone_loop x ?url ?hs t = (Ret None, query_all x ?url ?hs t)"
        by (rule zone_loop_empty)
      then show ?thesis
        using Some by (simp add: get_zone_id_def io_bind_def sys_exit_def raise_def)
    qed
    have failed: "\<exists>e. get_zone_id x g domain t
                      = (Raise e, query_all x ?url (take (Suc i) ?hs) t)
                  \<and> e \<in> {RequestException, HTTPError, JSONDecodeError, AttributeError}"
      if "i < length ?hs \<and> (\<forall>j<i. empty_result (zone_response x ?url ?hs t j))
          \<and> result_set (zone_response x ?url ?hs t i) = None" for i
    proof -
      from that have a: "i < length ?hs"
        "\<forall>j<i. empty_result (zone_response x ?url ?hs t j)"
        "result_set (zone_response x ?url ?hs t i) = None" by simp_all
      from zone_loop_failed [OF a] obtain e where
        e: "zone_loop x ?url ?hs t = (Raise e, query_all x ?url (take (Suc i) ?hs) t)"
           "e \<in> {RequestException, HTTPError, JSONDecodeError, AttributeError}"
        by (elim exE conjE)
      from get_zone_id_raise [OF Some e(1)] e(2) show ?thesis by (intro exI conjI)
    qed
    have malformed: "get_zone_id x g domain t
                = (Raise e, query_all x ?url (take (Suc i) ?hs) t)"
      if "i < length ?hs \<and> (\<forall>j<i. empty_result (zone_response x ?url ?hs t j))
          \<and> result_set (zone_response x ?url ?hs t i) = Some res
          \<and> truthy res \<and> first_id res = Inl e" for i res e
    proof -
      from that have a: "i < length ?hs"
        "\<forall>j<i. empty_result (zone_response x ?url ?hs t j)"
        "result_set (zone_response x ?url ?hs t i) = Some res" "truthy res"
        "first_id res = Inl e" by simp_all
      from get_zone_id_raise [OF Some zone_loop_malformed [OF a]] show ?thesis .
    qed
    have events: "\<exists>resps. length resps = length (take n ?hs)
              \<and> query_all x ?url (take n ?hs) t
                  = t @ map (\<lambda>(h, rs). Http (Get ?url h) rs) (zip (take n ?hs) resps)" for n
      by (rule query_all_events)
    show ?thesis
      unfolding Some option.case
    proof (intro conjI allI impI)
      fix i res z
      assume "i < length ?hs \<and> (\<forall>j<i. empty_result (zone_response x ?url ?hs t j))
          \<and> result_set (zone_response x ?url ?hs t i) = Some res
          \<and> truthy res \<and> first_id res = Inr z"
      then show "get_zone_id x g domain t
                = (Ret (?hs ! i, z), query_all x ?url (take (Suc i) ?hs) t)"
        by (rule found)
    next
      assume a: "\<forall>j<length ?hs. empty_result (zone_response x ?url ?hs t j)"
      from none [OF a]
      show "get_zone_id x g domain t
                = (Raise (SystemExit 1),
                   query_all x ?url ?hs t
                   @ [Log ERROR (if ''CF_API_TOKEN'' \<in> dom (environ g)
                                 then token_permissions_msg tld else zone_absent_msg tld)])"
        by (rule conjunct1)
      show "exit_status (Raise (SystemExit 1)) = Some 1" by simp
    next
      fix i
      assume "i < length ?hs \<and> (\<forall>j<i. empty_result (zone_response x ?url ?hs t j))
          \<and> result_set (zone_response x ?url ?hs t i) = None"
      then show "\<exists>e. get_zone_id x g domain t
                      = (Raise e, query_all x ?url (take (Suc i) ?hs) t)
                  \<and> e \<in> {RequestException, HTTPError, JSONDecodeError, AttributeError}"
        by (rule failed)
    next
      fix i res e
      assume "i < length ?hs \<and> (\<forall>j<i. empty_result (zone_response x ?url ?hs t j))
          \<and> result_set (zone_response x ?url ?hs t i) = Some res
          \<and> truthy res \<and> first_id res = Inl e"
      then show "get_zone_id x g domain t
                = (Raise e, query_all x ?url (take (Suc i) ?hs) t)"
        by (rule malformed)
    next
      fix n
      show "\<exists>resps. length resps = length (take n ?hs)
              \<and> query_all x ?url (take n ?hs) t
                  = t @ map (\<lambda>(h, rs). Http (Get ?url h) rs) (zip (take n ?hs) resps)"
        by (rule events)
    qed
  qed
qed

lemma example_zone_response [simp]:
  "http example_platform t (Get (zones_url ''example.com'') auth) =
     Response 200 (Some (JObj [(''success'', JBool True),
        (''result'', JArr [JObj [(''id'', JStr ''z1''), (''name'', JStr ''example.com'')]])]))"
  by (simp add: example_platform_def example_http_def)

lemma example_zone_unknown [simp]:
  "http example_platform t (Get (zones_url ''example.org'') auth) =
     Response 200 (Some (JObj [(''success'', JBool True), (''result'', JArr [])]))"
  by (simp add: example_platform_def example_http_def zones_url_def api_def records_query_url_def)

lemma refusing_first:
  "http refusing_platform t (Get url (bearer ''tokA'')) = Response 403 None"
  by (simp add: refusing_platform_def)

lemma refusing_second:
  "http refusing_platform t (Get (zones_url ''example.com'') (bearer ''tokB''))
     = Response 200 (Some (JObj [(''success'', JBool True),
        (''result'', JArr [JObj [(''id'', JStr ''z1''), (''name'', JStr ''example.com'')]])]))"
  by (simp add: refusing_platform_def example_http_def bearer_def)

theorem resolve_zone_witness:
  "get_zone_id example_platform example_globals ''example.com'' []
     = (Ret (bearer ''tokA'', JStr ''z1''),
        [Http (Get (zones_url ''example.com'') (bearer ''tokA''))
           (Response 200 (Some (JObj [(''success'', JBool True),
              (''result'', JArr [JObj [(''id'', JStr ''z1''),
                                       (''name'', JStr ''example.com'')]])])))])
   \<and> get_zone_id example_platform example_globals ''example.org'' []
     = (Raise (SystemExit 1),
        [Http (Get (zones_url ''example.org'') (bearer ''tokA''))
           (Response 200 (Some (JObj [(''success'', JBool True), (''result'', JArr [])]))),
         Log ERROR (token_permissions_msg ''example.org'')])
   \<and> (\<exists>e. get_zone_id refusing_platform two_token_globals ''example.com'' []
         = (Raise e, [Http (Get (zones_url ''example.com'') (bearer ''tokA''))
                        (Response 403 None)]))"
proof -
  have f: "get_fld example_platform (''http://'' @ ''example.com'') = Some ''example.com''"
          "get_fld example_platform (''http://'' @ ''example.org'') = Some ''example.org''"
          "get_fld refusing_platform (''http://'' @ ''example.com'') = Some ''example.com''"
    by (simp_all add: example_platform_def refusing_platform_def)
  have h: "CF_HEADERS example_globals = [bearer ''tokA'']"
          "''CF_API_TOKEN'' \<in> dom (environ example_globals)"
          "CF_HEADERS two_token_globals = [bearer ''tokA'', bearer ''tokB'']"
    by (simp_all add: example_globals_def two_token_globals_def)
  note com = resolve_zone [where x = example_platform and g = example_globals
      and domain = "''example.com''" and t = "[]", THEN conjunct1, unfolded f(1) option.case]
  note org = resolve_zone [where x = example_platform and g = example_globals
      and domain = "''example.org''" and t = "[]", THEN conjunct1, unfolded f(2) option.case]
  note ref = resolve_zone [where x = refusing_platform and g = two_token_globals
      and domain = "''example.com''" and t = "[]", THEN conjunct1, unfolded f(3) option.case]
  from com [THEN conjunct1, rule_format,
      of 0 "JArr [JObj [(''id'', JStr ''z1''), (''name'', JStr ''example.com'')]]" "JStr ''z1''"]
  have a: "get_zone_id example_platform example_globals ''example.com'' []
     = (Ret (bearer ''tokA'', JStr ''z1''),
        [Http (Get (zones_url ''example.com'') (bearer ''tokA''))
           (Response 200 (Some (JObj [(''success'', JBool True),
              (''result'', JArr [JObj [(''id'', JStr ''z1''),
                                       (''name'', JStr ''example.com'')]])])))])"
    by (simp add: h zone_response_def result_set_def)
  from org [THEN conjunct2, THEN conjunct1]
  have b: "get_zone_id example_platform example_globals ''example.org'' []
     = (Raise (SystemExit 1),
        [Http (Get (zones_url ''example.org'') (bearer ''tokA''))
           (Response 200 (Some (JObj [(''success'', JBool True), (''result'', JArr [])]))),
         Log ERROR (token_permissions_msg ''example.org'')])"
    by (simp add: h zone_response_def result_set_def empty_result_def)
  from ref [THEN conjunct2, THEN conjunct2, THEN conjunct1, rule_format, of 0]
  have "\<exists>e. get_zone_id refusing_platform two_token_globals ''example.com'' []
         = (Raise e, [Http (Get (zones_url ''example.com'') (bearer ''tokA''))
                        (Response 403 None)])
           \<and> e \<in> {RequestException, HTTPError, JSONDecodeError, AttributeError}"
    by (simp add: h zone_response_def result_set_def refusing_first)
  then have c: "\<exists>e. get_zone_id refusing_platform two_token_globals ''example.com'' []
         = (Raise e, [Http (Get (zones_url ''example.com'') (bearer ''tokA''))
                        (Response 403 None)])"
    by (elim exE conjE, intro exI)
  from a b c show ?thesis by (intro conjI)
qed

text \<open>
  The first of two tokens is refused with status 403, the second would be answered with
  the zone: the function raises HTTPError after one query, returns no pair and logs
  nothing.
\<close>

theorem resolve_zone_refused:
  "get_zone_id refusing_platform two_token_globals ''example.com'' []
     = (Raise HTTPError,
        [Http (Get (zones_url ''example.com'') (bearer ''tokA'')) (Response 403 None)])
 \<and> result_set
       (http refusing_platform
          [Http (Get (zones_url ''example.com'') (bearer ''tokA'')) (Response 403 None)]
          (Get (zones_url ''example.com'') (bearer ''tokB'')))
     = Some (JArr [JObj [(''id'', JStr ''z1''), (''name'', JStr ''example.com'')]])"
proof -
  have f: "get_fld refusing_platform (''http://'' @ ''example.com'') = Some ''example.com''"
    by (simp add: refusing_platform_def example_platform_def)
  have r: "requests refusing_platform (Get (zones_url ''example.com'') (bearer ''tokA'')) []
       = (Ret (403, None), [Http (Get (zones_url ''example.com'') (bearer ''tokA'')) (Response 403 None)])"
    by (rule requests_Response [where t = "[]", simplified]) (rule refusing_first)
  have h: "CF_HEADERS two_token_globals = [bearer ''tokA'', bearer ''tokB'']"
    by (simp add: two_token_globals_def)
  have "zone_loop refusing_platform (zones_url ''example.com'') (CF_HEADERS two_token_globals) []
     = (Raise HTTPError,
        [Http (Get (zones_url ''example.com'') (bearer ''tokA'')) (Response 403 None)])"
    unfolding h
    by (simp add: io_bind_def [of "requests _ _"] r io_then_def raise_for_status_def raise_def)
  from get_zone_id_raise [OF f this]
  have "get_zone_id refusing_platform two_token_globals ''example.com'' []
     = (Raise HTTPError,
        [Http (Get (zones_url ''example.com'') (bearer ''tokA'')) (Response 403 None)])" .
  then show ?thesis by (simp add: refusing_second result_set_def)
qed

subsection \<open>Argument lists that are not made of triples\<close>

lemma io_bind_assoc: "io_bind (io_bind m f) k = io_bind m (\<lambda>v. io_bind (f v) k)"
  by (rule ext) (simp add: io_bind_def split: prod.splits outcome.splits)

lemma io_then_assoc: "io_then (io_then m k) k' = io_then m (io_then k k')"
  by (simp add: io_then_def io_bind_assoc)

lemma for_each_append: "for_each f (xs @ ys) = io_then (for_each f xs) (for_each f ys)"
  by (induction xs) (simp_all add: io_then_assoc)

lemma for_each_cong: "(\<And>i. i \<in> set xs \<Longrightarrow> f i = h i) \<Longrightarrow> for_each f xs = for_each h xs"
  by (induction xs) simp_all

lemma range3_partial:
  assumes "n mod 3 \<noteq> 0"
  shows "range3 n = range3 (n - n mod 3) @ [n - n mod 3]"
proof -
  have a: "(n + 2) div 3 = Suc (n div 3)" using assms by presburger
  have b: "(n - n mod 3 + 2) div 3 = n div 3" by presburger
  have c: "3 * (n div 3) = n - n mod 3" by presburger
  have "range3 n = map (\<lambda>k. 3 * k) [0 ..< Suc (n div 3)]"
    unfolding range3_def a ..
  also have "\<dots> = map (\<lambda>k. 3 * k) [0 ..< n div 3] @ [3 * (n div 3)]" by simp
  also have "map (\<lambda>k. 3 * k) [0 ..< n div 3] = range3 (n - n mod 3)"
    unfolding range3_def b ..
  finally show ?thesis unfolding c .
qed

lemma range3_bound: "i \<in> set (range3 n) \<Longrightarrow> n mod 3 = 0 \<Longrightarrow> i + 3 \<le> n"
  by (auto simp: range3_def) presburger

lemma group_of_prefix:
  "i + 3 \<le> m \<Longrightarrow> take 3 (drop i (take m args)) = take 3 (drop i args)"
  by (simp add: drop_take min_def)

lemma create_txt_record_arity:
  "length a \<noteq> 3 \<Longrightarrow> create_txt_record x g a = raise ValueError"
  by (auto simp: create_txt_record_def split: list.splits)

lemma delete_txt_record_arity:
  "length a < 3 \<Longrightarrow> delete_txt_record x g a = raise IndexError"
  by (simp add: delete_txt_record_def)

lemma io_then_raise_right:
  "io_then m (raise e) t = (case m t of (Ret u, t') \<Rightarrow> (Raise e, t') | failed \<Rightarrow> failed)"
  by (simp add: io_then_def io_bind_def raise_def split: prod.splits outcome.splits)

lemma for_each_partial:
  assumes "length args mod 3 \<noteq> 0"
    and "\<And>a. length a < 3 \<Longrightarrow> f a = raise e"
  shows "for_each (\<lambda>i. f (take 3 (drop i args))) (range3 (length args)) t =
           (case for_each (\<lambda>i. f (take 3 (drop i (take (length args - length args mod 3) args))))
                   (range3 (length (take (length args - length args mod 3) args))) t of
              (Ret u, t') \<Rightarrow> (Raise e, t') | failed \<Rightarrow> failed)"
proof -
  let ?m = "length args - length args mod 3"
  have len: "length (take ?m args) = ?m" by simp
  have m3: "?m mod 3 = 0" by presburger
  have last: "f (take 3 (drop ?m args)) = raise e"
  proof (rule assms(2))
    have "length (drop ?m args) = length args mod 3" by simp
    then show "length (take 3 (drop ?m args)) < 3" by simp
  qed
  have same: "for_each (\<lambda>i. f (take 3 (drop i args))) (range3 ?m)
      = for_each (\<lambda>i. f (take 3 (drop i (take ?m args)))) (range3 ?m)"
    by (rule for_each_cong) (simp add: group_of_prefix range3_bound [OF _ m3])
  show ?thesis
    by (simp only: range3_partial [OF assms(1)] for_each_append for_each.simps last len same
          io_then_raise io_then_raise_right)
qed

text \<open>
  C10. Let the length of \<open>args\<close> not be a multiple of 3. \<open>delete_all_txt_records\<close> and
  the create loop of \<open>create_all_txt_records\<close> do to the outside exactly what they do on
  the leading complete triples alone. When these are processed without an error the
  partial group then raises, IndexError in \<open>delete_txt_record\<close> and the unpacking
  ValueError in \<open>create_txt_record\<close>, before any event; when a leading triple fails,
  its error ends the run. \<open>create_all_txt_records\<close> ends with the create loop (no
  sleep, no poll), or at once with ValueError when \<open>CF_SETTLE_TIME\<close> is not an
  integer. Neither function returns normally.
\<close>

theorem partial_group_rejected:
  assumes "length args mod 3 \<noteq> 0"
  shows "delete_all_txt_records x g args t =
           (case delete_all_txt_records x g (take (length args - length args mod 3) args) t of
              (Ret u, t') \<Rightarrow> (Raise IndexError, t') | failed \<Rightarrow> failed)
       \<and> create_records x g args t =
           (case create_records x g (take (length args - length args mod 3) args) t of
              (Ret u, t') \<Rightarrow> (Raise ValueError, t') | failed \<Rightarrow> failed)
       \<and> create_all_txt_records fuel x g args t =
           (case py_int x (case environ g ''CF_SETTLE_TIME'' of None \<Rightarrow> ''10'' | Some v \<Rightarrow> v) of
              None \<Rightarrow> (Raise ValueError, t)
            | Some settle_time \<Rightarrow> create_records x g args t)
       \<and> (\<forall>u. fst (delete_all_txt_records x g args t) \<noteq> Ret u)
       \<and> (\<forall>u. fst (create_all_txt_records fuel x g args t) \<noteq> Ret u)"
proof -
  have d: "delete_all_txt_records x g args t =
           (case delete_all_txt_records x g (take (length args - length args mod 3) args) t of
              (Ret u, t') \<Rightarrow> (Raise IndexError, t') | failed \<Rightarrow> failed)"
    unfolding delete_all_txt_records_def
    by (rule for_each_partial [OF assms]) (rule delete_txt_record_arity)
  have c: "create_records x g args t =
           (case create_records x g (take (length args - length args mod 3) args) t of
              (Ret u, t') \<Rightarrow> (Raise ValueError, t') | failed \<Rightarrow> failed)"
    unfolding create_records_def
    by (rule for_each_partial [OF assms]) (simp add: create_txt_record_arity)
  have cn: "fst (create_records x g args t) \<noteq> Ret u" for u
    by (subst c) (auto split: prod.splits outcome.splits)
  have a: "create_all_txt_records fuel x g args t =
           (case py_int x (case environ g ''CF_SETTLE_TIME'' of None \<Rightarrow> ''10'' | Some v \<Rightarrow> v) of
              None \<Rightarrow> (Raise ValueError, t)
            | Some settle_time \<Rightarrow> create_records x g args t)"
    using cn
    by (auto simp: create_all_txt_records_def raise_def io_then_def io_bind_def
        split: option.splits prod.splits outcome.splits)
  have dn: "fst (delete_all_txt_records x g args t) \<noteq> Ret u" for u
    by (subst d) (auto split: prod.splits outcome.splits)
  have an: "fst (create_all_txt_records fuel x g args t) \<noteq> Ret u" for u
    using cn by (auto simp: a split: option.splits)
  from d c a dn an show ?thesis by blast
qed



theorem partial_group_rejected_witness:
  "fst (delete_all_txt_records example_platform example_globals
          [''example.com'', ''c'', ''tok123'', ''example.org''] []) = Raise IndexError
   \<and> fst (create_all_txt_records 2 example_platform example_globals
          [''example.com'', ''c'', ''tok123'', ''example.org''] []) = Raise ValueError"
proof -
  have d: "fst (delete_all_txt_records example_platform example_globals
             [''example.com'', ''c'', ''tok123''] []) = Ret ()"
    by code_simp
  have c: "fst (create_records example_platform example_globals
             [''example.com'', ''c'', ''tok123''] []) = Ret ()"
    by code_simp
  have i: "py_int example_platform ''10'' = Some 10"
    by code_simp
  have e: "environ example_globals ''CF_SETTLE_TIME'' = None"
    by (simp add: example_globals_def)
  from partial_group_rejected [of "[''example.com'', ''c'', ''tok123'', ''example.org'']"
      example_platform example_globals "[]" 2] d c i e
  show ?thesis
    by (auto split: prod.splits outcome.splits)
qed

subsection \<open>Names and payloads of the record operations\<close>

lemma addsI: "(\<And>t. \<exists>evs. snd (m t) = t @ evs \<and> list_all P evs) \<Longrightarrow> adds P m"
  by (simp add: adds_def)

lemma addsD: "adds P m \<Longrightarrow> m t = (r, t') \<Longrightarrow> \<exists>evs. t' = t @ evs \<and> list_all P evs"
  by (metis adds_def snd_conv)

lemma adds_ret [simp]: "adds P (ret v)"
  by (simp add: adds_def ret_def)

lemma adds_raise [simp]: "adds P (raise e)"
  by (simp add: adds_def raise_def)

lemma adds_sys_exit [simp]: "adds P (sys_exit n)"
  by (simp add: sys_exit_def)

lemma adds_emit: "P e \<Longrightarrow> adds P (emit e)"
  by (simp add: adds_def emit_def)

lemma adds_logger: "P (Log l m) \<Longrightarrow> adds P (logger l m)"
  by (simp add: logger_def adds_emit)

lemma adds_requests: "(\<And>rs. P (Http rq rs)) \<Longrightarrow> adds P (requests x rq)"
  by (simp add: adds_def requests_def split: http_response.splits)

lemma adds_dns_resolver: "(\<And>rs. P (Dns srv name rs)) \<Longrightarrow> adds P (dns_resolver x srv name)"
  by (simp add: adds_def dns_resolver_def Let_def)

lemma adds_time_sleep: "P (Sleep n) \<Longrightarrow> adds P (time_sleep n)"
  by (simp add: time_sleep_def adds_emit)

lemma adds_lift [simp]: "adds P (lift r)"
  by (cases r) (simp_all add: lift_def)

lemma adds_raise_for_status [simp]: "adds P (raise_for_status r)"
  by (simp add: raise_for_status_def)

lemma adds_r_json [simp]: "adds P (r_json r)"
  by (simp add: r_json_def split: option.splits)

lemma adds_bind:
  assumes "adds P m" and "\<And>v. adds P (f v)"
  shows "adds P (io_bind m f)"
proof (rule addsI)
  fix t
  obtain r t' where m: "m t = (r, t')" by (cases "m t")
  from addsD [OF assms(1) m] obtain evs where e: "t' = t @ evs" "list_all P evs" by blast
  show "\<exists>evs. snd (io_bind m f t) = t @ evs \<and> list_all P evs"
  proof (cases r)
    case (Ret v)
    obtain r2 t2 where f: "f v t' = (r2, t2)" by (cases "f v t'")
    from addsD [OF assms(2) f] obtain evs2 where "t2 = t' @ evs2" "list_all P evs2" by blast
    with e have "t2 = t @ (evs @ evs2)" "list_all P (evs @ evs2)" by simp_all
    then show ?thesis using m Ret f by (auto simp: io_bind_def)
  next
    case (Raise x)
    then show ?thesis using m e by (auto simp: io_bind_def)
  next
    case Blocked
    then show ?thesis using m e by (auto simp: io_bind_def)
  qed
qed

lemma adds_then: "adds P m \<Longrightarrow> adds P k \<Longrightarrow> adds P (io_then m k)"
  by (simp add: io_then_def adds_bind)

lemma adds_mono: "adds P m \<Longrightarrow> (\<And>e. P e \<Longrightarrow> Q e) \<Longrightarrow> adds Q m"
  unfolding adds_def by (metis (mono_tags, lifting) list_all_iff)

lemma adds_for_each: "(\<And>i. i \<in> set xs \<Longrightarrow> adds P (body i)) \<Longrightarrow> adds P (for_each body xs)"
  by (induction xs) (simp_all add: adds_then)

lemma adds_zone_loop:
  "adds (\<lambda>e. \<exists>auth rs. e = Http (Get url auth) rs) (zone_loop x url hs)"
  by (induction hs) (auto intro!: adds_bind adds_then adds_requests)

lemma adds_get_zone_id: "adds (zone_step x domain) (get_zone_id x g domain)"
proof (cases "get_fld x (''http://'' @ domain)")
  case None
  then show ?thesis by (simp add: get_zone_id_def)
next
  case (Some tld)
  have "adds (zone_step x domain) (zone_loop x (zones_url tld) (CF_HEADERS g))"
    using Some by (intro adds_mono [OF adds_zone_loop]) (auto simp: zone_step_def)
  then show ?thesis
    using Some
    by (auto simp: get_zone_id_def zone_step_def
        intro!: adds_bind adds_then adds_logger split: option.splits)
qed

lemma lookup_run:
  assumes "get_txt_record_id x auth z name token t = (r, t')"
  shows "\<exists>rs logs.
           t' = t @ Http (Get (records_query_url (py_format x z) name token) auth) rs # logs
         \<and> list_all is_log logs
         \<and> (\<forall>record_id. r = Ret record_id \<and> truthy record_id \<longrightarrow>
               logs = [] \<and> (\<exists>status j res. rs = Response status (Some j)
                 \<and> getitem j ''result'' = Inr res \<and> first_id res = Inr record_id))"
proof (cases "http x t (Get (records_query_url (py_format x z) name token) auth)")
  case NoResponse
  then show ?thesis using assms
    by (auto simp: get_txt_record_id_def io_bind_def requests_NoResponse)
next
  case r: (Response status body)
  show ?thesis using assms
    by (auto simp: get_txt_record_id_def io_bind_def io_then_def requests_Response [OF r]
          raise_for_status_def r_json_def lift_def ret_def raise_def logger_def emit_def
          is_log_def
        split: if_splits option.splits sum.splits exn.splits)
qed


lemma adds_get_txt_record_id:
  "adds (\<lambda>e. is_log e \<or> (\<exists>rs. e = Http (Get (records_query_url (py_format x z) name token) auth) rs))
        (get_txt_record_id x auth z name token)"
proof (rule addsI)
  fix t
  obtain r t' where run: "get_txt_record_id x auth z name token t = (r, t')"
    by (cases "get_txt_record_id x auth z name token t")
  from lookup_run [OF run] obtain rs logs where
    "t' = t @ Http (Get (records_query_url (py_format x z) name token) auth) rs # logs"
    "list_all is_log logs" by blast
  then show "\<exists>evs. snd (get_txt_record_id x auth z name token t) = t @ evs \<and>
       list_all (\<lambda>e. is_log e \<or> (\<exists>rs. e = Http (Get (records_query_url (py_format x z) name token) auth) rs)) evs"
    using run by (auto simp: list_all_iff)
qed

lemma record_name_eq: "record_name domain = ''_acme-challenge.'' @ domain"
  by (simp add: record_name_def)

lemma adds_create_txt_record:
  "adds (create_step x domain token) (create_txt_record x g [domain, challenge, token])"
proof -
  let ?P = "create_step x domain token"
  have z: "adds ?P (get_zone_id x g domain)"
    by (rule adds_mono [OF adds_get_zone_id])
       (auto simp: zone_step_def create_step_def split: event.splits http_request.splits)
  have l: "adds ?P (get_txt_record_id x auth zone (record_name domain) token)" for auth zone
    by (rule adds_mono [OF adds_get_txt_record_id])
       (auto simp: create_step_def is_log_def record_name_eq split: event.splits)
  have p: "adds ?P (requests x (Post (records_url (py_format x zone)) auth
                                  (payload (record_name domain) token)))" for auth zone
    by (rule adds_requests) (auto simp: create_step_def payload_def record_name_eq)
  have lg: "adds ?P (logger lv m)" for lv m
    by (rule adds_logger) (simp add: create_step_def)
  show ?thesis
    unfolding create_txt_record_def list.case Let_def
    by (intro adds_then adds_bind lg z) (auto intro!: adds_bind adds_then l p lg)
qed



lemma delete_found_tail:
  "\<exists>rs' logs'. snd (io_bind (requests x rq) (\<lambda>r. io_then (raise_for_status r) (logger l m)) t2)
       = t2 @ Http rq rs' # logs' \<and> list_all is_log logs'"
proof (cases "http x t2 rq")
  case NoResponse
  then show ?thesis by (simp add: io_bind_def requests_NoResponse)
next
  case r: (Response status body)
  show ?thesis
    by (simp add: io_bind_def io_then_def requests_Response [OF r] raise_for_status_def
          raise_def ret_def logger_def emit_def is_log_def)
qed

lemma delete_unfold:
  assumes "domain \<noteq> []"
    and "get_zone_id x g domain t = (Ret (auth, zone), t1)"
    and "get_txt_record_id x auth zone (record_name domain) token t1 = (r2, t2)"
  shows "delete_txt_record x g [domain, challenge, token] t =
      (case r2 of
         Ret record_id \<Rightarrow>
           if truthy record_id then
             io_bind (requests x (Delete (record_url (py_format x zone) (py_format x record_id)) auth))
               (\<lambda>r. io_then (raise_for_status r)
                  (logger DEBUG ('' + Deleted TXT '' @ record_name domain @ '', CFID ''
                                  @ py_format x record_id))) t2
           else (Ret (), t2 @ [Log DEBUG ('' + No TXT '' @ record_name domain @ '' with token '' @ token)])
       | Raise e \<Rightarrow> (Raise e, t2)
       | Blocked \<Rightarrow> (Blocked, t2))"
proof -
  have "delete_txt_record x g [domain, challenge, token] t =
     io_bind (get_zone_id x g domain) (\<lambda>(auth, zone_id).
          io_bind (get_txt_record_id x auth zone_id (record_name domain) token) (\<lambda>record_id.
            if truthy record_id then
              io_bind (requests x
                 (Delete (record_url (py_format x zone_id) (py_format x record_id)) auth)) (\<lambda>r.
              io_then (raise_for_status r) (
                logger DEBUG
                  ('' + Deleted TXT '' @ record_name domain @ '', CFID '' @ py_format x record_id)))
            else
              logger DEBUG ('' + No TXT '' @ record_name domain @ '' with token '' @ token))) t"
    using assms(1) by (simp add: delete_txt_record_def Let_def)
  also have "\<dots> = io_bind (get_txt_record_id x auth zone (record_name domain) token) (\<lambda>record_id.
            if truthy record_id then
              io_bind (requests x
                 (Delete (record_url (py_format x zone) (py_format x record_id)) auth)) (\<lambda>r.
              io_then (raise_for_status r) (
                logger DEBUG
                  ('' + Deleted TXT '' @ record_name domain @ '', CFID '' @ py_format x record_id)))
            else
              logger DEBUG ('' + No TXT '' @ record_name domain @ '' with token '' @ token)) t1"
    by (subst io_bind_def) (simp add: assms(2))
  also have "\<dots> = (case r2 of
         Ret record_id \<Rightarrow>
           if truthy record_id then
             io_bind (requests x (Delete (record_url (py_format x zone) (py_format x record_id)) auth))
               (\<lambda>r. io_then (raise_for_status r)
                  (logger DEBUG ('' + Deleted TXT '' @ record_name domain @ '', CFID ''
                                  @ py_format x record_id))) t2
           else (Ret (), t2 @ [Log DEBUG ('' + No TXT '' @ record_name domain @ '' with token '' @ token)])
       | Raise e \<Rightarrow> (Raise e, t2)
       | Blocked \<Rightarrow> (Blocked, t2))"
    by (subst io_bind_def) (simp add: assms(3) logger_def emit_def split: outcome.splits)
  finally show ?thesis .
qed


lemma delete_tail_none: "delete_tail x domain token []"
  by (simp add: delete_tail_def)

lemma delete_tail_lookup:
  assumes "list_all is_log logs"
  shows "delete_tail x domain token
     (Http (Get (records_query_url zone (''_acme-challenge.'' @ domain) token) auth) rs # logs)"
  unfolding delete_tail_def
  by (rule disjI2, rule disjI1, intro exI conjI, rule refl, rule assms)

lemma delete_tail_delete:
  assumes "getitem j ''result'' = Inr res" "first_id res = Inr record_id" "list_all is_log logs"
  shows "delete_tail x domain token
     (Http (Get (records_query_url zone (''_acme-challenge.'' @ domain) token) auth)
           (Response status (Some j))
      # Http (Delete (record_url zone (py_format x record_id)) auth) rs # logs)"
  unfolding delete_tail_def
  by (rule disjI2, rule disjI2, intro exI conjI, rule refl, (rule assms)+)

lemma shapeI:
  "snd R = t @ zq @ tail \<Longrightarrow> list_all Z zq \<Longrightarrow> D tail \<Longrightarrow>
     \<exists>zq tail. snd R = t @ zq @ tail \<and> list_all Z zq \<and> D tail"
  by blast

lemma delete_txt_record_shape:
  "\<exists>zq tail. snd (delete_txt_record x g [domain, challenge, token] t) = t @ zq @ tail
      \<and> list_all (zone_step x domain) zq \<and> delete_tail x domain token tail"
proof (cases "domain = []")
  case True
  then have "snd (delete_txt_record x g [domain, challenge, token] t)
               = t @ [Log INFO '' + http_request() error in letsencrypt.sh?''] @ []"
    by (simp add: delete_txt_record_def logger_def emit_def)
  moreover have "list_all (zone_step x domain) [Log INFO '' + http_request() error in letsencrypt.sh?'']"
    by (simp add: zone_step_def)
  ultimately show ?thesis
    by (rule shapeI [where D = "delete_tail x domain token"]) (rule delete_tail_none)
next
  case False
  obtain r1 t1 where z: "get_zone_id x g domain t = (r1, t1)"
    by (cases "get_zone_id x g domain t")
  from addsD [OF adds_get_zone_id z] obtain zq where
    zq: "t1 = t @ zq" "list_all (zone_step x domain) zq" by blast
  have stop: "\<exists>zq tail. snd (delete_txt_record x g [domain, challenge, token] t) = t @ zq @ tail
      \<and> list_all (zone_step x domain) zq \<and> delete_tail x domain token tail"
    if "delete_txt_record x g [domain, challenge, token] t = (r, t1)" for r
  proof -
    from that zq(1) have "snd (delete_txt_record x g [domain, challenge, token] t) = t @ zq @ []"
      by simp
    then show ?thesis using zq(2)
      by (rule shapeI [where D = "delete_tail x domain token"]) (rule delete_tail_none)
  qed
  show ?thesis
  proof (cases r1)
    case (Ret p)
    obtain auth zone where p: "p = (auth, zone)" by (cases p)
    obtain r2 t2 where l: "get_txt_record_id x auth zone (record_name domain) token t1 = (r2, t2)"
      by (cases "get_txt_record_id x auth zone (record_name domain) token t1")
    from lookup_run [OF l] obtain rs logs where
      t2: "t2 = t1 @ Http (Get (records_query_url (py_format x zone) (record_name domain) token) auth) rs # logs"
      and logs: "list_all is_log logs"
      and found: "\<forall>record_id. r2 = Ret record_id \<and> truthy record_id \<longrightarrow>
               logs = [] \<and> (\<exists>status j res. rs = Response status (Some j)
                 \<and> getitem j ''result'' = Inr res \<and> first_id res = Inr record_id)"
      by (elim exE conjE)
    let ?q = "Get (records_query_url (py_format x zone) (''_acme-challenge.'' @ domain) token) auth"
    have t2': "t2 = t @ zq @ (Http ?q rs # logs)"
      unfolding t2 zq(1) record_name_eq by simp
    have z': "get_zone_id x g domain t = (Ret (auth, zone), t1)" using z Ret p by simp
    note run = delete_unfold [OF False z' l, of challenge]
    show ?thesis
    proof (cases "\<exists>record_id. r2 = Ret record_id \<and> truthy record_id")
      case True
      then obtain record_id where rid: "r2 = Ret record_id" "truthy record_id" by (elim exE conjE)
      from found rid have "logs = [] \<and> (\<exists>status j res. rs = Response status (Some j)
                 \<and> getitem j ''result'' = Inr res \<and> first_id res = Inr record_id)" by simp
      then obtain status j res where
        f: "logs = []" "rs = Response status (Some j)" "getitem j ''result'' = Inr res"
           "first_id res = Inr record_id" by (elim exE conjE)
      let ?del = "Delete (record_url (py_format x zone) (py_format x record_id)) auth"
      let ?m = "'' + Deleted TXT '' @ record_name domain @ '', CFID '' @ py_format x record_id"
      from delete_found_tail [of x ?del DEBUG ?m t2] obtain rs' logs' where
        d: "snd (io_bind (requests x ?del) (\<lambda>r. io_then (raise_for_status r)
                  (logger DEBUG ?m)) t2) = t2 @ Http ?del rs' # logs'"
           "list_all is_log logs'" by (elim exE conjE)
      have "snd (delete_txt_record x g [domain, challenge, token] t) = t2 @ Http ?del rs' # logs'"
        unfolding run rid(1) using rid(2) d(1) by simp
      then have "snd (delete_txt_record x g [domain, challenge, token] t)
              = t @ zq @ (Http ?q (Response status (Some j)) # Http ?del rs' # logs')"
        unfolding t2' f(1,2) by simp
      then show ?thesis using zq(2)
        by (rule shapeI [where D = "delete_tail x domain token"])
           (rule delete_tail_delete [OF f(3,4) d(2)])
    next
      case no: False
      have "\<exists>logs'. snd (delete_txt_record x g [domain, challenge, token] t) = t2 @ logs'
              \<and> list_all is_log logs'"
      proof (cases r2)
        case (Ret record_id)
        with no have "\<not> truthy record_id" by simp
        then have "snd (delete_txt_record x g [domain, challenge, token] t)
           = t2 @ [Log DEBUG ('' + No TXT '' @ record_name domain @ '' with token '' @ token)]"
          unfolding run Ret by simp
        moreover have "list_all is_log
           [Log DEBUG ('' + No TXT '' @ record_name domain @ '' with token '' @ token)]"
          by (simp add: is_log_def)
        ultimately show ?thesis by (intro exI conjI)
      next
        case (Raise e)
        have "snd (delete_txt_record x g [domain, challenge, token] t) = t2 @ []"
          unfolding run Raise by simp
        moreover have "list_all is_log []" by simp
        ultimately show ?thesis by (intro exI conjI)
      next
        case Blocked
        have "snd (delete_txt_record x g [domain, challenge, token] t) = t2 @ []"
          unfolding run Blocked by simp
        moreover have "list_all is_log []" by simp
        ultimately show ?thesis by (intro exI conjI)
      qed
      then obtain logs' where
        d: "snd (delete_txt_record x g [domain, challenge, token] t) = t2 @ logs'"
           "list_all is_log logs'" by (elim exE conjE)
      have "snd (delete_txt_record x g [domain, challenge, token] t)
              = t @ zq @ (Http ?q rs # logs @ logs')"
        unfolding d(1) t2' by simp
      moreover have "list_all is_log (logs @ logs')" using logs d(2) by simp
      note delete_tail_lookup [OF this]
      ultimately show ?thesis using zq(2)
        by (intro shapeI [where D = "delete_tail x domain token"])
    qed
  next
    case (Raise e)
    have "delete_txt_record x g [domain, challenge, token] t = (Raise e, t1)"
      using False z Raise by (simp add: delete_txt_record_def io_bind_def Let_def)
    then show ?thesis by (rule stop)
  next
    case Blocked
    have "delete_txt_record x g [domain, challenge, token] t = (Blocked, t1)"
      using False z Blocked by (simp add: delete_txt_record_def io_bind_def Let_def)
    then show ?thesis by (rule stop)
  qed
qed

text \<open>
  C8. Every event of \<open>create_txt_record\<close> on a triple is a log line, a zone-list query
  for the registrable domain, a record lookup under the name \<open>_acme-challenge.\<close> followed
  by the domain as given (with the token as content), or a create request whose payload
  has that name, the token, the type TXT and the TTL 120. \<open>delete_txt_record\<close> on a
  triple does its zone lookup and then nothing, or the record lookup under the same
  name, or that lookup followed at once by the delete request for the id the lookup
  returned.
\<close>

theorem record_operations_named:
  "(\<exists>evs. snd (create_txt_record x g [domain, challenge, token] t) = t @ evs
         \<and> list_all (create_step x domain token) evs)
 \<and> (\<exists>zq tail. snd (delete_txt_record x g [domain, challenge, token] t) = t @ zq @ tail
         \<and> list_all (zone_step x domain) zq \<and> delete_tail x domain token tail)"
proof (rule conjI)
  show "\<exists>evs. snd (create_txt_record x g [domain, challenge, token] t) = t @ evs
         \<and> list_all (create_step x domain token) evs"
    using adds_create_txt_record [of x domain token g challenge] unfolding adds_def by (rule spec)
next
  show "\<exists>zq tail. snd (delete_txt_record x g [domain, challenge, token] t) = t @ zq @ tail
         \<and> list_all (zone_step x domain) zq \<and> delete_tail x domain token tail"
    by (rule delete_txt_record_shape)
qed


theorem record_operations_named_witness:
  "(\<exists>evs. snd (create_txt_record example_platform example_globals
                  [''example.com'', ''c'', ''tok123''] []) = [] @ evs
         \<and> list_all (create_step example_platform ''example.com'' ''tok123'') evs)
 \<and> (\<exists>zq tail. snd (delete_txt_record example_platform example_globals
                      [''example.com'', ''c'', ''tok123''] []) = [] @ zq @ tail
         \<and> list_all (zone_step example_platform ''example.com'') zq
         \<and> delete_tail example_platform ''example.com'' ''tok123'' tail)"
  by (rule record_operations_named)

subsection \<open>Creating a record twice\<close>

lemma lookup_found_id:
  assumes "found_id (http x t (Get (records_query_url (py_format x z) name token) auth)) = Inr rid"
  shows "\<exists>logs. get_txt_record_id x auth z name token t
           = (Ret rid, t @ Http (Get (records_query_url (py_format x z) name token) auth)
                              (http x t (Get (records_query_url (py_format x z) name token) auth))
                        # logs)
         \<and> list_all is_log logs \<and> (truthy rid \<longrightarrow> logs = [])"
proof (cases "http x t (Get (records_query_url (py_format x z) name token) auth)")
  case NoResponse
  then show ?thesis using assms by (simp add: found_id_def)
next
  case r: (Response status body)
  from assms r have ok: "(400 \<le> status \<and> status < 600) = False"
    by (auto simp: found_id_def ok_status_def split: if_splits)
  from assms r ok obtain j where b: "body = Some j"
    by (cases body) (auto simp: found_id_def ok_status_def)
  from assms r ok b obtain res where res: "getitem j ''result'' = Inr res"
    by (cases "getitem j ''result''") (auto simp: found_id_def ok_status_def)
  have f: "(case first_id res of Inl IndexError \<Rightarrow> Inr JNull | Inl e \<Rightarrow> Inl e
            | Inr record_id \<Rightarrow> Inr record_id) = Inr rid"
    using assms r ok b res by (simp add: found_id_def ok_status_def)
  have run: "get_txt_record_id x auth z name token t =
     (case first_id res of
         Inl IndexError \<Rightarrow>
           io_then (logger DEBUG ('' + Unable to locate record named '' @ name)) (ret JNull)
       | Inl e \<Rightarrow> raise e
       | Inr record_id \<Rightarrow> ret record_id)
       (t @ [Http (Get (records_query_url (py_format x z) name token) auth) (Response status (Some j))])"
    using res
    by (simp add: get_txt_record_id_def io_bind_def io_then_def requests_Response [OF r [unfolded b]]
          raise_for_status_def ok r_json_def lift_def ret_def)
  show ?thesis
  proof (cases "first_id res")
    case (Inl e)
    with f have e: "e = IndexError" "rid = JNull" by (auto split: exn.splits)
    have "get_txt_record_id x auth z name token t
           = (Ret rid, t @ Http (Get (records_query_url (py_format x z) name token) auth)
                              (http x t (Get (records_query_url (py_format x z) name token) auth))
                        # [Log DEBUG ('' + Unable to locate record named '' @ name)])"
      unfolding run Inl e r b by (simp add: ret_def)
    moreover have "list_all is_log [Log DEBUG ('' + Unable to locate record named '' @ name)]"
      by (simp add: is_log_def)
    moreover have "truthy rid \<longrightarrow> [Log DEBUG ('' + Unable to locate record named '' @ name)] = []"
      using e by simp
    ultimately show ?thesis by (intro exI conjI)
  next
    case (Inr record_id)
    with f have "record_id = rid" by simp
    then have "get_txt_record_id x auth z name token t
           = (Ret rid, t @ Http (Get (records_query_url (py_format x z) name token) auth)
                              (http x t (Get (records_query_url (py_format x z) name token) auth))
                        # [])"
      unfolding run Inr r b by (simp add: ret_def)
    moreover have "list_all is_log []" "truthy rid \<longrightarrow> ([]::event list) = []" by simp_all
    ultimately show ?thesis by (intro exI conjI)
  qed
qed

lemma post_new_id:
  assumes "new_id (http x t (Post url auth body)) = Inr rid"
  shows "io_bind (requests x (Post url auth body)) (\<lambda>r.
              io_then (raise_for_status r) (
              io_bind (r_json r) (\<lambda>j.
              io_bind (lift (getitem j ''result'')) (\<lambda>res.
              io_bind (lift (getitem res ''id'')) (\<lambda>record_id.
                logger DEBUG (m record_id)))))) t
         = (Ret (), t @ [Http (Post url auth body) (http x t (Post url auth body)),
                         Log DEBUG (m rid)])"
proof (cases "http x t (Post url auth body)")
  case NoResponse
  then show ?thesis using assms by (simp add: new_id_def)
next
  case r: (Response status b)
  from assms r have ok: "(400 \<le> status \<and> status < 600) = False"
    by (auto simp: new_id_def ok_status_def split: if_splits)
  from assms r ok obtain j where b: "b = Some j"
    by (cases b) (auto simp: new_id_def ok_status_def)
  from assms r ok b obtain res where res: "getitem j ''result'' = Inr res"
    by (cases "getitem j ''result''") (auto simp: new_id_def ok_status_def)
  have i: "getitem res ''id'' = Inr rid"
    using assms r ok b res by (simp add: new_id_def ok_status_def)
  show ?thesis
    using res i
    by (simp add: io_bind_def io_then_def requests_Response [OF r [unfolded b]] r b
          raise_for_status_def ok r_json_def lift_def ret_def logger_def emit_def)
qed

lemma get_zone_id_first:
  assumes "get_fld x (''http://'' @ domain) = Some tld" and "CF_HEADERS g = auth # rest"
    and "result_set (http x t (Get (zones_url tld) auth)) = Some zres"
    and "truthy zres" and "first_id zres = Inr zone"
  shows "get_zone_id x g domain t
           = (Ret (auth, zone), t @ [Http (Get (zones_url tld) auth)
                                        (http x t (Get (zones_url tld) auth))])"
  using assms(1,4,5)
  by (simp add: get_zone_id_def assms(2) io_bind_def zone_loop_step [OF assms(3)] ret_def
        del: zone_loop.simps)

lemma create_unfold:
  assumes "get_zone_id x g domain
             (t @ [Log DEBUG ('' + Creating TXT record: '' @ domain @ '' => '' @ token),
                   Log DEBUG ('' + Challenge: '' @ challenge)]) = (Ret (auth, zone), t1)"
    and "get_txt_record_id x auth zone (record_name domain) token t1 = (Ret rid, t2)"
  shows "create_txt_record x g [domain, challenge, token] t =
      (if truthy rid then (Ret (), t2 @ [Log DEBUG '' + TXT record exists, skipping creation.''])
       else io_bind (requests x
                 (Post (records_url (py_format x zone)) auth (payload (record_name domain) token))) (\<lambda>r.
              io_then (raise_for_status r) (
              io_bind (r_json r) (\<lambda>j.
              io_bind (lift (getitem j ''result'')) (\<lambda>res.
              io_bind (lift (getitem res ''id'')) (\<lambda>record_id.
                logger DEBUG
                  ('' + TXT record created, CFID: '' @ py_format x record_id)))))) t2)"
proof -
  let ?t0 = "t @ [Log DEBUG ('' + Creating TXT record: '' @ domain @ '' => '' @ token),
                   Log DEBUG ('' + Challenge: '' @ challenge)]"
  let ?rest = "\<lambda>(auth, zone_id).
          io_bind (get_txt_record_id x auth zone_id (record_name domain) token) (\<lambda>record_id.
            if truthy record_id then
              logger DEBUG '' + TXT record exists, skipping creation.''
            else
              io_bind (requests x
                 (Post (records_url (py_format x zone_id)) auth (payload (record_name domain) token))) (\<lambda>r.
              io_then (raise_for_status r) (
              io_bind (r_json r) (\<lambda>j.
              io_bind (lift (getitem j ''result'')) (\<lambda>res.
              io_bind (lift (getitem res ''id'')) (\<lambda>record_id.
                logger DEBUG
                  ('' + TXT record created, CFID: '' @ py_format x record_id)))))))"
  have "create_txt_record x g [domain, challenge, token] t
          = io_bind (get_zone_id x g domain) ?rest ?t0"
    by (simp add: create_txt_record_def Let_def)
  also have "\<dots> = ?rest (auth, zone) t1"
    by (subst io_bind_def) (simp only: assms(1) prod.case outcome.case)
  also have "\<dots> = (if truthy rid then (Ret (), t2 @ [Log DEBUG '' + TXT record exists, skipping creation.''])
       else io_bind (requests x
                 (Post (records_url (py_format x zone)) auth (payload (record_name domain) token))) (\<lambda>r.
              io_then (raise_for_status r) (
              io_bind (r_json r) (\<lambda>j.
              io_bind (lift (getitem j ''result'')) (\<lambda>res.
              io_bind (lift (getitem res ''id'')) (\<lambda>record_id.
                logger DEBUG
                  ('' + TXT record created, CFID: '' @ py_format x record_id)))))) t2)"
    unfolding prod.case
    by (subst io_bind_def) (simp add: assms(2) logger_def emit_def)
  finally show ?thesis .
qed


lemma new_id_ok:
  "new_id rs = Inr rid \<Longrightarrow> \<exists>status b. rs = Response status b \<and> ok_status status"
  by (cases rs) (auto simp: new_id_def split: if_splits)

lemma is_log_not_delete: "list_all is_log logs \<Longrightarrow> list_all (\<lambda>e. \<not> is_delete e) logs"
  by (induction logs) (auto simp: is_log_def is_delete_def split: event.splits)

lemma is_log_not_post: "list_all is_log logs \<Longrightarrow> filter is_post logs = []"
  by (induction logs) (auto simp: is_log_def is_post_def split: event.splits)

lemma is_log_not_created: "list_all is_log logs \<Longrightarrow> \<not> created u p logs"
  by (induction logs) (auto simp: is_log_def created_def split: event.splits)

lemma created_append: "created u p (xs @ ys) = (created u p xs \<or> created u p ys)"
  by (simp add: created_def)

lemma zone_step_not_post: "list_all (zone_step x domain) zq \<Longrightarrow> filter is_post zq = []"
  by (induction zq)
     (auto simp: zone_step_def is_post_def split: event.splits http_request.splits)

lemma create_short_circuit:
  assumes z: "get_zone_id x g domain
             (t @ [Log DEBUG ('' + Creating TXT record: '' @ domain @ '' => '' @ token),
                   Log DEBUG ('' + Challenge: '' @ challenge)]) = (Ret (auth, zone), t1)"
    and f: "found_id (http x t1 (Get (records_query_url (py_format x zone)
                 (''_acme-challenge.'' @ domain) token) auth)) = Inr rid"
    and "truthy rid"
  shows "create_txt_record x g [domain, challenge, token] t
           = (Ret (), t1 @ [Http (Get (records_query_url (py_format x zone)
                                    (''_acme-challenge.'' @ domain) token) auth)
                              (http x t1 (Get (records_query_url (py_format x zone)
                                    (''_acme-challenge.'' @ domain) token) auth)),
                            Log DEBUG '' + TXT record exists, skipping creation.''])"
    and "\<exists>evs. t1 @ [Http (Get (records_query_url (py_format x zone)
                                    (''_acme-challenge.'' @ domain) token) auth)
                              (http x t1 (Get (records_query_url (py_format x zone)
                                    (''_acme-challenge.'' @ domain) token) auth)),
                            Log DEBUG '' + TXT record exists, skipping creation.''] = t @ evs
               \<and> filter is_post evs = []"
proof -
  let ?q = "Get (records_query_url (py_format x zone) (''_acme-challenge.'' @ domain) token) auth"
  from lookup_found_id [OF f] obtain logs where
    l: "get_txt_record_id x auth zone (''_acme-challenge.'' @ domain) token t1
          = (Ret rid, t1 @ Http ?q (http x t1 ?q) # logs)"
    and e: "truthy rid \<longrightarrow> logs = []" by (elim exE conjE)
  from e assms(3) have logs: "logs = []" by simp
  show "create_txt_record x g [domain, challenge, token] t
           = (Ret (), t1 @ [Http ?q (http x t1 ?q),
                            Log DEBUG '' + TXT record exists, skipping creation.''])"
    using create_unfold [OF z l [unfolded logs record_name_eq [symmetric]]] assms(3)
    by (simp add: record_name_eq)
  from addsD [OF adds_get_zone_id z] obtain zq where
    zq: "t1 = (t @ [Log DEBUG ('' + Creating TXT record: '' @ domain @ '' => '' @ token),
                   Log DEBUG ('' + Challenge: '' @ challenge)]) @ zq"
        "list_all (zone_step x domain) zq" by (elim exE conjE)
  let ?evs = "[Log DEBUG ('' + Creating TXT record: '' @ domain @ '' => '' @ token),
               Log DEBUG ('' + Challenge: '' @ challenge)] @ zq
              @ [Http ?q (http x t1 ?q), Log DEBUG '' + TXT record exists, skipping creation.'']"
  have "t1 @ [Http ?q (http x t1 ?q), Log DEBUG '' + TXT record exists, skipping creation.'']
          = t @ ?evs"
    by (subst zq(1)) simp
  moreover have "filter is_post ?evs = []"
    using zone_step_not_post [OF zq(2)] by (simp add: is_post_def)
  ultimately show "\<exists>evs. t1 @ [Http ?q (http x t1 ?q),
                            Log DEBUG '' + TXT record exists, skipping creation.''] = t @ evs
               \<and> filter is_post evs = []"
    by (intro exI conjI)
qed


lemma create_twice:
  assumes fld: "get_fld x (''http://'' @ domain) = Some tld"
    and hs: "CF_HEADERS g = auth # rest"
    and U: "unchanged_provider x t tld auth zone (''_acme-challenge.'' @ domain) token"
  shows "\<exists>ev1 ev2 rs.
           create_txt_record x g [domain, challenge, token] t = (Ret (), t @ ev1)
         \<and> create_txt_record x g [domain, challenge, token] (t @ ev1) = (Ret (), t @ ev1 @ ev2)
         \<and> filter is_post ev1
              = [Http (Post (records_url (py_format x zone)) auth
                         (payload (''_acme-challenge.'' @ domain) token)) rs]
         \<and> filter is_post ev2 = []"
proof -
  let ?n = "''_acme-challenge.'' @ domain"
  let ?u = "records_url (py_format x zone)"
  let ?p = "payload ?n token"
  let ?q = "Get (records_query_url (py_format x zone) ?n token) auth"
  let ?zq = "Get (zones_url tld) auth"
  let ?l1 = "Log DEBUG ('' + Creating TXT record: '' @ domain @ '' => '' @ token)"
  let ?l2 = "Log DEBUG ('' + Challenge: '' @ challenge)"
  have U1: "\<exists>zres. result_set (http x (t @ evs) ?zq) = Some zres
               \<and> truthy zres \<and> first_id zres = Inr zone"
    if "list_all (\<lambda>e. \<not> is_delete e) evs" for evs
    using U that unfolding unchanged_provider_def by simp
  have U2: "\<exists>record_id. found_id (http x (t @ evs) ?q) = Inr record_id
              \<and> truthy record_id = created ?u ?p evs"
    if "list_all (\<lambda>e. \<not> is_delete e) evs" for evs
    using U that unfolding unchanged_provider_def by simp
  have U3: "\<exists>record_id. new_id (http x (t @ evs) (Post ?u auth ?p)) = Inr record_id"
    if "list_all (\<lambda>e. \<not> is_delete e) evs" for evs
    using U that unfolding unchanged_provider_def by simp
  have zone: "get_zone_id x g domain (t @ evs)
                = (Ret (auth, zone), t @ evs @ [Http ?zq (http x (t @ evs) ?zq)])"
    if "list_all (\<lambda>e. \<not> is_delete e) evs" for evs
  proof -
    from U1 [OF that] obtain zres where
      "result_set (http x (t @ evs) ?zq) = Some zres" "truthy zres" "first_id zres = Inr zone"
      by (elim exE conjE)
    from get_zone_id_first [OF fld hs this] show ?thesis by simp
  qed

  \<comment> \<open>first call\<close>
  let ?evA = "[?l1, ?l2]"
  have ndA: "list_all (\<lambda>e. \<not> is_delete e) ?evA" by (simp add: is_delete_def)
  define rz where "rz = http x (t @ ?evA) ?zq"
  let ?evB = "?evA @ [Http ?zq rz]"
  have zA: "get_zone_id x g domain (t @ [?l1, ?l2]) = (Ret (auth, zone), t @ ?evB)"
    using zone [OF ndA] by (simp add: rz_def)
  have ndB: "list_all (\<lambda>e. \<not> is_delete e) ?evB" by (simp add: is_delete_def)
  have ncB: "\<not> created ?u ?p ?evB" by (simp add: created_def)
  from U2 [OF ndB] ncB obtain rid0 where
    f0: "found_id (http x (t @ ?evB) ?q) = Inr rid0" and nt0: "\<not> truthy rid0"
    by (elim exE conjE) simp
  define rq where "rq = http x (t @ ?evB) ?q"
  from lookup_found_id [OF f0] obtain logs where
    lB: "get_txt_record_id x auth zone ?n token (t @ ?evB)
           = (Ret rid0, (t @ ?evB) @ Http ?q rq # logs)"
    and logs: "list_all is_log logs" unfolding rq_def by (elim exE conjE)
  define evC where "evC = ?evB @ Http ?q rq # logs"
  have ndC: "list_all (\<lambda>e. \<not> is_delete e) evC"
    using is_log_not_delete [OF logs] by (simp add: is_delete_def evC_def)
  have postC: "filter is_post evC = []"
    using is_log_not_post [OF logs] by (simp add: is_post_def evC_def)
  from U3 [OF ndC] obtain nid where n: "new_id (http x (t @ evC) (Post ?u auth ?p)) = Inr nid"
    by (elim exE)
  define rp where "rp = http x (t @ evC) (Post ?u auth ?p)"
  let ?l3 = "Log DEBUG ('' + TXT record created, CFID: '' @ py_format x nid)"
  define ev1 where "ev1 = evC @ [Http (Post ?u auth ?p) rp, ?l3]"
  have lB': "get_txt_record_id x auth zone (record_name domain) token (t @ ?evB)
           = (Ret rid0, t @ evC)"
    using lB by (simp add: record_name_eq evC_def)
  have "create_txt_record x g [domain, challenge, token] t
          = (Ret (), (t @ evC) @ [Http (Post ?u auth ?p) rp, ?l3])"
    using create_unfold [OF zA lB'] nt0
      post_new_id [OF n, of "\<lambda>record_id. '' + TXT record created, CFID: '' @ py_format x record_id"]
    by (simp add: record_name_eq rp_def)
  then have run1: "create_txt_record x g [domain, challenge, token] t = (Ret (), t @ ev1)"
    by (simp add: ev1_def)
  have post1: "filter is_post ev1 = [Http (Post ?u auth ?p) rp]"
    using postC by (simp add: is_post_def ev1_def)
  from new_id_ok [OF n] obtain st b where rp: "rp = Response st b" "ok_status st"
    unfolding rp_def by (elim exE conjE)
  have c1: "created ?u ?p ev1"
    unfolding ev1_def created_append by (simp add: created_def rp)
  have nd1: "list_all (\<lambda>e. \<not> is_delete e) ev1"
    using ndC by (simp add: is_delete_def ev1_def)

  \<comment> \<open>second call\<close>
  let ?evA' = "ev1 @ [?l1, ?l2]"
  have ndA': "list_all (\<lambda>e. \<not> is_delete e) ?evA'"
    using nd1 by (simp add: is_delete_def)
  define rz' where "rz' = http x (t @ ?evA') ?zq"
  let ?evB' = "?evA' @ [Http ?zq rz']"
  have zA2: "get_zone_id x g domain ((t @ ev1) @ [?l1, ?l2]) = (Ret (auth, zone), t @ ?evB')"
    using zone [OF ndA'] by (simp add: rz'_def)
  have ndB': "list_all (\<lambda>e. \<not> is_delete e) ?evB'"
    using ndA' by (simp add: is_delete_def)
  have cB': "created ?u ?p ?evB'"
    using c1 by (simp only: created_append) simp
  from U2 [OF ndB'] cB' obtain rid1 where
    f1: "found_id (http x (t @ ?evB') ?q) = Inr rid1" and t1: "truthy rid1"
    by (elim exE conjE) simp
  define rq' where "rq' = http x (t @ ?evB') ?q"
  let ?l4 = "Log DEBUG '' + TXT record exists, skipping creation.''"
  let ?ev2 = "[?l1, ?l2, Http ?zq rz', Http ?q rq', ?l4]"
  have run2: "create_txt_record x g [domain, challenge, token] (t @ ev1)
                = (Ret (), t @ ev1 @ ?ev2)"
    using create_short_circuit(1) [OF zA2 f1 t1] by (simp add: rq'_def)
  have post2: "filter is_post ?ev2 = []" by (simp add: is_post_def)
  from run1 run2 post1 post2 show ?thesis by (intro exI conjI)
qed


text \<open>
  C4. First part: whenever the lookup that precedes the create request finds a record
  (the id it returns counts as true), \<open>create_txt_record\<close> logs that the record exists
  and returns; the call has added no create request to the trace. Second part: against
  an unchanged provider that does not hold the record yet, two calls in a row with the
  same domain and token both return, the first issues exactly one create request and the
  second none.
\<close>

theorem create_idempotent:
  "(\<forall>auth zone t1 rid.
       get_zone_id x g domain
         (t @ [Log DEBUG ('' + Creating TXT record: '' @ domain @ '' => '' @ token),
               Log DEBUG ('' + Challenge: '' @ challenge)]) = (Ret (auth, zone), t1)
     \<and> found_id (http x t1 (Get (records_query_url (py_format x zone)
                    (''_acme-challenge.'' @ domain) token) auth)) = Inr rid
     \<and> truthy rid
     \<longrightarrow> create_txt_record x g [domain, challenge, token] t
           = (Ret (), t1 @ [Http (Get (records_query_url (py_format x zone)
                                    (''_acme-challenge.'' @ domain) token) auth)
                              (http x t1 (Get (records_query_url (py_format x zone)
                                    (''_acme-challenge.'' @ domain) token) auth)),
                            Log DEBUG '' + TXT record exists, skipping creation.''])
       \<and> (\<exists>evs. snd (create_txt_record x g [domain, challenge, token] t) = t @ evs
                 \<and> filter is_post evs = []))
 \<and> (\<forall>tld auth rest zone.
       get_fld x (''http://'' @ domain) = Some tld \<and> CF_HEADERS g = auth # rest
     \<and> unchanged_provider x t tld auth zone (''_acme-challenge.'' @ domain) token
     \<longrightarrow> (\<exists>ev1 ev2 rs.
           create_txt_record x g [domain, challenge, token] t = (Ret (), t @ ev1)
         \<and> create_txt_record x g [domain, challenge, token] (t @ ev1) = (Ret (), t @ ev1 @ ev2)
         \<and> filter is_post ev1
              = [Http (Post (records_url (py_format x zone)) auth
                         (payload (''_acme-challenge.'' @ domain) token)) rs]
         \<and> filter is_post ev2 = []))"
proof (intro conjI allI impI)
  fix auth zone t1 rid
  assume h: "get_zone_id x g domain
         (t @ [Log DEBUG ('' + Creating TXT record: '' @ domain @ '' => '' @ token),
               Log DEBUG ('' + Challenge: '' @ challenge)]) = (Ret (auth, zone), t1)
     \<and> found_id (http x t1 (Get (records_query_url (py_format x zone)
                    (''_acme-challenge.'' @ domain) token) auth)) = Inr rid
     \<and> truthy rid"
  then have z: "get_zone_id x g domain
         (t @ [Log DEBUG ('' + Creating TXT record: '' @ domain @ '' => '' @ token),
               Log DEBUG ('' + Challenge: '' @ challenge)]) = (Ret (auth, zone), t1)"
    and f: "found_id (http x t1 (Get (records_query_url (py_format x zone)
                    (''_acme-challenge.'' @ domain) token) auth)) = Inr rid"
    and tr: "truthy rid" by simp_all
  show run: "create_txt_record x g [domain, challenge, token] t
           = (Ret (), t1 @ [Http (Get (records_query_url (py_format x zone)
                                    (''_acme-challenge.'' @ domain) token) auth)
                              (http x t1 (Get (records_query_url (py_format x zone)
                                    (''_acme-challenge.'' @ domain) token) auth)),
                            Log DEBUG '' + TXT record exists, skipping creation.''])"
    by (rule create_short_circuit(1) [OF z f tr])
  show "\<exists>evs. snd (create_txt_record x g [domain, challenge, token] t) = t @ evs
                 \<and> filter is_post evs = []"
    unfolding run snd_conv by (rule create_short_circuit(2) [OF z f tr])
next
  fix tld auth rest zone
  assume "get_fld x (''http://'' @ domain) = Some tld \<and> CF_HEADERS g = auth # rest
     \<and> unchanged_provider x t tld auth zone (''_acme-challenge.'' @ domain) token"
  then have "get_fld x (''http://'' @ domain) = Some tld" "CF_HEADERS g = auth # rest"
    "unchanged_provider x t tld auth zone (''_acme-challenge.'' @ domain) token"
    by simp_all
  then show "\<exists>ev1 ev2 rs.
           create_txt_record x g [domain, challenge, token] t = (Ret (), t @ ev1)
         \<and> create_txt_record x g [domain, challenge, token] (t @ ev1) = (Ret (), t @ ev1 @ ev2)
         \<and> filter is_post ev1
              = [Http (Post (records_url (py_format x zone)) auth
                         (payload (''_acme-challenge.'' @ domain) token)) rs]
         \<and> filter is_post ev2 = []"
    by (rule create_twice)
qed

lemma record_present_created:
  "list_all (\<lambda>e. \<not> is_delete e) evs \<Longrightarrow>
     foldl record_step b evs
       = (b \<or> created (records_url ''z1'') (payload example_name ''tok123'') evs)"
proof (induction evs arbitrary: b)
  case Nil
  then show ?case by (simp add: created_def)
next
  case (Cons e evs)
  from Cons.prems have nd: "list_all (\<lambda>e. \<not> is_delete e) evs" and ne: "\<not> is_delete e"
    by simp_all
  have step: "record_step b e
     = (b \<or> created (records_url ''z1'') (payload example_name ''tok123'') [e])"
    using ne
    by (cases e rule: event.exhaust [case_names Log Stdout Http Dns Sleep])
       (auto simp: record_step_def created_def is_delete_def
          split: http_request.splits http_response.splits)
  have "created (records_url ''z1'') (payload example_name ''tok123'') (e # evs)
      = (created (records_url ''z1'') (payload example_name ''tok123'') [e]
         \<or> created (records_url ''z1'') (payload example_name ''tok123'') evs)"
    using created_append [of _ _ "[e]" evs] by simp
  then show ?case
    using Cons.IH [OF nd, of "record_step b e"] step by simp
qed

lemma example_unchanged:
  "unchanged_provider example_platform [] ''example.com'' (bearer ''tokA'') (JStr ''z1'')
     (''_acme-challenge.'' @ ''example.com'') ''tok123''"
  unfolding unchanged_provider_def
proof (intro allI impI conjI)
  fix evs
  assume nd: "list_all (\<lambda>e. \<not> is_delete e) evs"
  show "\<exists>zres. result_set (http example_platform ([] @ evs)
                 (Get (zones_url ''example.com'') (bearer ''tokA''))) = Some zres
               \<and> truthy zres \<and> first_id zres = Inr (JStr ''z1'')"
    by (simp add: result_set_def)
  have p: "record_present evs
      = created (records_url ''z1'') (payload example_name ''tok123'') evs"
    unfolding record_present_def using record_present_created [OF nd, of False] by simp
  have q: "http example_platform evs
       (Get (records_query_url ''z1'' example_name ''tok123'') (bearer ''tokA''))
     = Response 200 (Some (JObj [(''success'', JBool True),
               (''result'', if record_present evs then JArr [JObj [(''id'', JStr ''r1'')]]
                            else JArr [])]))"
    by (simp add: example_platform_def example_http_def zones_url_def records_query_url_def
          api_def example_name_def)
  show "\<exists>record_id.
            found_id (http example_platform ([] @ evs)
                        (Get (records_query_url (py_format example_platform (JStr ''z1''))
                               (''_acme-challenge.'' @ ''example.com'') ''tok123'') (bearer ''tokA'')))
              = Inr record_id
          \<and> truthy record_id
              = created (records_url (py_format example_platform (JStr ''z1'')))
                  (payload (''_acme-challenge.'' @ ''example.com'') ''tok123'') evs"
  proof (cases "record_present evs")
    case True
    have "found_id (http example_platform evs
             (Get (records_query_url ''z1'' example_name ''tok123'') (bearer ''tokA'')))
            = Inr (JStr ''r1'')"
      unfolding q using True by (simp add: found_id_def ok_status_def)
    then show ?thesis
      using True p by (intro exI [of _ "JStr ''r1''"]) (simp add: py_format_def example_name_def)
  next
    case False
    have "found_id (http example_platform evs
             (Get (records_query_url ''z1'' example_name ''tok123'') (bearer ''tokA'')))
            = Inr JNull"
      unfolding q using False by (simp add: found_id_def ok_status_def)
    then show ?thesis
      using False p by (intro exI [of _ JNull]) (simp add: py_format_def example_name_def)
  qed
  show "\<exists>record_id.
            new_id (http example_platform ([] @ evs)
                      (Post (records_url (py_format example_platform (JStr ''z1''))) (bearer ''tokA'')
                         (payload (''_acme-challenge.'' @ ''example.com'') ''tok123'')))
              = Inr record_id"
    by (simp add: py_format_def example_platform_def example_http_def new_id_def ok_status_def)
qed

theorem create_idempotent_witness:
  "\<exists>ev1 ev2 rs.
      create_txt_record example_platform example_globals [''example.com'', ''c'', ''tok123''] []
        = (Ret (), [] @ ev1)
    \<and> create_txt_record example_platform example_globals [''example.com'', ''c'', ''tok123'']
        ([] @ ev1) = (Ret (), [] @ ev1 @ ev2)
    \<and> filter is_post ev1
         = [Http (Post (records_url (py_format example_platform (JStr ''z1''))) (bearer ''tokA'')
                    (payload (''_acme-challenge.'' @ ''example.com'') ''tok123'')) rs]
    \<and> filter is_post ev2 = []"
proof -
  have f: "get_fld example_platform (''http://'' @ ''example.com'') = Some ''example.com''"
    by (simp add: example_platform_def)
  have h: "CF_HEADERS example_globals = bearer ''tokA'' # []"
    by (simp add: example_globals_def)
  from create_idempotent [of example_platform example_globals "''example.com''" "[]"
         "''tok123''" "''c''", THEN conjunct2, rule_format,
         of "''example.com''" "bearer ''tokA''" "[]" "JStr ''z1''"]
       f h example_unchanged
  show ?thesis by (simp only: simp_thms)
qed

subsection \<open>Order of a batch\<close>

lemma adds_create_any: "adds provider_or_log (create_txt_record x g a)"
proof (cases "length a = 3")
  case True
  then obtain d c tok where a: "a = [d, c, tok]"
    by (cases a; cases "tl a"; cases "tl (tl a)") auto
  show ?thesis unfolding a
    by (rule adds_mono [OF adds_create_txt_record])
       (auto simp: create_step_def provider_or_log_def split: event.splits)
next
  case False
  then show ?thesis by (simp add: create_txt_record_arity)
qed

lemma adds_create_records: "adds provider_or_log (create_records x g args)"
  unfolding create_records_def by (rule adds_for_each) (rule adds_create_any)

lemma wait_propagated_shape:
  assumes "wait_propagated fuel x g name token t = (r, t')"
  shows "\<exists>ps. t' = t @ ps \<and> list_all poll_or_log ps
      \<and> (r = Ret () \<longrightarrow>
           (\<forall>ds rest. polls ((name, token) # ds) (filter (\<lambda>e. \<not> is_log e) ps @ rest)
                        = polls ds rest))
      \<and> (r \<noteq> Ret () \<longrightarrow>
           (\<forall>ds. polls ((name, token) # ds) (filter (\<lambda>e. \<not> is_log e) ps)
                   = Some ((name, token) # ds)))"
  using assms
proof (induction fuel arbitrary: t r t')
  case 0
  then have "t' = t @ []" "r = Blocked" by simp_all
  then show ?case by (intro exI [of _ "[]"]) simp
next
  case (Suc fuel)
  let ?srv = "nameservers g"
  let ?resp = "resolve x t ?srv name"
  let ?d = "Dns ?srv name ?resp"
  let ?nl = "\<lambda>e. \<not> is_log e"
  consider (yes) "has_dns_propagated x g name token t = (Ret True, t @ [?d])" "propagated token ?resp"
    | (no) logs where "has_dns_propagated x g name token t = (Ret False, t @ ?d # logs)"
        "list_all is_log logs" "\<not> propagated token ?resp"
    | (err) e where "has_dns_propagated x g name token t = (Raise e, t @ [?d])"
        "\<not> propagated token ?resp"
  proof (cases ?resp)
    case (Failed k m)
    then have "has_dns_propagated x g name token t
      = (Ret False, t @ ?d # [Log DEBUG ('' + '' @ m @ ''. Retrying query...'')])"
      by (simp add: has_dns_propagated_run)
    moreover have "list_all is_log [Log DEBUG ('' + '' @ m @ ''. Retrying query...'')]"
      by (simp add: is_log_def)
    moreover have "\<not> propagated token ?resp" using Failed by (simp add: propagated_def)
    ultimately show ?thesis by (rule no)
  next
    case (Answer rds)
    show ?thesis
    proof (cases "scan_rdata token rds")
      case (Inl e)
      then have "has_dns_propagated x g name token t = (Raise e, t @ [?d])"
        using Answer by (simp add: has_dns_propagated_run)
      moreover have "\<not> propagated token ?resp" using Answer Inl by (simp add: propagated_def)
      ultimately show ?thesis by (rule err)
    next
      case (Inr b)
      show ?thesis
      proof (cases b)
        case True
        then have "has_dns_propagated x g name token t = (Ret True, t @ [?d])"
          using Answer Inr by (simp add: has_dns_propagated_run)
        moreover have "propagated token ?resp" using Answer Inr True by (simp add: propagated_def)
        ultimately show ?thesis by (rule yes)
      next
        case False
        then have "has_dns_propagated x g name token t = (Ret False, t @ ?d # [])"
          using Answer Inr by (simp add: has_dns_propagated_run)
        moreover have "list_all is_log []" by simp
        moreover have "\<not> propagated token ?resp" using Answer Inr False by (simp add: propagated_def)
        ultimately show ?thesis by (rule no)
      qed
    qed
  qed
  then show ?case
  proof cases
    case yes
    then have "r = Ret ()" "t' = t @ [?d]"
      using Suc.prems by (simp_all add: io_bind_def ret_def)
    then show ?thesis using yes(2)
      by (intro exI [of _ "[?d]"]) (simp add: poll_or_log_def is_log_def)
  next
    case (no logs)
    let ?t2 = "t @ ?d # logs @ [Log INFO '' + DNS not propagated, waiting 30s...'', Sleep 30]"
    have run: "wait_propagated fuel x g name token ?t2 = (r, t')"
      using Suc.prems no(1)
      by (simp add: io_bind_def io_then_def logger_def emit_def time_sleep_def)
    from Suc.IH [OF run] obtain ps where
      ps: "t' = ?t2 @ ps" "list_all poll_or_log ps"
      and w1: "r = Ret () \<longrightarrow>
           (\<forall>ds rest. polls ((name, token) # ds) (filter ?nl ps @ rest) = polls ds rest)"
      and w2: "r \<noteq> Ret () \<longrightarrow>
           (\<forall>ds. polls ((name, token) # ds) (filter ?nl ps) = Some ((name, token) # ds))"
      by (elim exE conjE)
    let ?ps = "?d # logs @ [Log INFO '' + DNS not propagated, waiting 30s...'', Sleep 30] @ ps"
    have f: "filter ?nl ?ps = ?d # Sleep 30 # filter ?nl ps"
      using no(2) by (simp add: is_log_def filter_empty_conv list_all_iff)
    have a: "t' = t @ ?ps" using ps(1) by simp
    have b: "list_all poll_or_log ?ps"
      using ps(2) no(2) by (auto simp: poll_or_log_def is_log_def list_all_iff split: event.splits)
    have c: "r = Ret () \<longrightarrow>
           (\<forall>ds rest. polls ((name, token) # ds) (filter ?nl ?ps @ rest) = polls ds rest)"
      unfolding f using w1 no(3) by simp
    have d: "r \<noteq> Ret () \<longrightarrow>
           (\<forall>ds. polls ((name, token) # ds) (filter ?nl ?ps) = Some ((name, token) # ds))"
      unfolding f using w2 no(3) by simp
    from a b c d show ?thesis by (intro exI [of _ ?ps] conjI)
  next
    case (err e)
    then have "r = Raise e" "t' = t @ [?d]"
      using Suc.prems by (simp_all add: io_bind_def)
    then show ?thesis using err(2)
      by (intro exI [of _ "[?d]"]) (simp add: poll_or_log_def is_log_def)
  qed
qed


lemma await_shape:
  assumes "\<forall>i\<in>set js. i + 2 < length args"
    and "for_each (poll fuel x g args) js t = (r, t')"
  shows "\<exists>ps. t' = t @ ps \<and> list_all poll_or_log ps
      \<and> (r = Ret () \<longrightarrow>
           (\<forall>rest. polls (map (domain_at args) js) (filter (\<lambda>e. \<not> is_log e) ps @ rest)
                     = polls [] rest))
      \<and> (r \<noteq> Ret () \<longrightarrow>
           (\<exists>rem. rem \<noteq> []
              \<and> polls (map (domain_at args) js) (filter (\<lambda>e. \<not> is_log e) ps) = Some rem))"
  using assms
proof (induction js arbitrary: t r t')
  case Nil
  then have "r = Ret ()" "t' = t @ []" by (simp_all add: ret_def)
  then show ?case by (intro exI [of _ "[]"]) simp
next
  case (Cons i js)
  let ?nl = "\<lambda>e. \<not> is_log e"
  define name where "name = fst (domain_at args i)"
  define token where "token = snd (domain_at args i)"
  have dom: "domain_at args i = (name, token)" by (simp add: name_def token_def)
  from Cons.prems(1) have i: "i + 2 < length args" and js: "\<forall>i\<in>set js. i + 2 < length args"
    by simp_all
  have p: "poll fuel x g args i = wait_propagated fuel x g name token"
    using i by (simp add: poll_def record_name_eq name_def token_def domain_at_def)
  obtain r1 t1 where w: "wait_propagated fuel x g name token t = (r1, t1)"
    by (cases "wait_propagated fuel x g name token t")
  from wait_propagated_shape [OF w] obtain ps1 where
    ps1: "t1 = t @ ps1" "list_all poll_or_log ps1"
    and w1: "r1 = Ret () \<longrightarrow>
           (\<forall>ds rest. polls ((name, token) # ds) (filter ?nl ps1 @ rest) = polls ds rest)"
    and w2: "r1 \<noteq> Ret () \<longrightarrow>
           (\<forall>ds. polls ((name, token) # ds) (filter ?nl ps1) = Some ((name, token) # ds))"
    by (elim exE conjE)
  show ?case
  proof (cases "r1 = Ret ()")
    case True
    have run: "for_each (poll fuel x g args) js t1 = (r, t')"
      using Cons.prems(2) w True by (simp add: p io_then_def io_bind_def)
    from Cons.IH [OF js run] obtain ps2 where
      ps2: "t' = t1 @ ps2" "list_all poll_or_log ps2"
      and a1: "r = Ret () \<longrightarrow>
           (\<forall>rest. polls (map (domain_at args) js) (filter ?nl ps2 @ rest) = polls [] rest)"
      and a2: "r \<noteq> Ret () \<longrightarrow>
           (\<exists>rem. rem \<noteq> [] \<and> polls (map (domain_at args) js) (filter ?nl ps2) = Some rem)"
      by (elim exE conjE)
    from w1 True have w1': "polls ((name, token) # ds) (filter ?nl ps1 @ rest) = polls ds rest"
      for ds rest by simp
    have a: "t' = t @ (ps1 @ ps2)" using ps1(1) ps2(1) by simp
    have b: "list_all poll_or_log (ps1 @ ps2)" using ps1(2) ps2(2) by simp
    have c: "r = Ret () \<longrightarrow>
           (\<forall>rest. polls (map (domain_at args) (i # js)) (filter ?nl (ps1 @ ps2) @ rest)
                     = polls [] rest)"
      using a1 by (simp add: w1' dom)
    have d: "r \<noteq> Ret () \<longrightarrow>
           (\<exists>rem. rem \<noteq> []
              \<and> polls (map (domain_at args) (i # js)) (filter ?nl (ps1 @ ps2)) = Some rem)"
      using a2 w1' [of _ "filter ?nl ps2"] by (simp add: dom)
    from a b c d show ?thesis by (intro exI [of _ "ps1 @ ps2"] conjI)
  next
    case False
    have "for_each (poll fuel x g args) (i # js) t = (r1, t1)"
      using w False by (cases r1) (simp_all add: p io_then_def io_bind_def)
    with Cons.prems(2) have e: "r = r1" "t' = t1" by simp_all
    from w2 False have "polls (map (domain_at args) (i # js)) (filter ?nl ps1)
        = Some ((name, token) # map (domain_at args) js)" by (simp add: dom)
    then have d: "r \<noteq> Ret () \<longrightarrow>
           (\<exists>rem. rem \<noteq> []
              \<and> polls (map (domain_at args) (i # js)) (filter ?nl ps1) = Some rem)"
      by simp
    have c: "r = Ret () \<longrightarrow>
           (\<forall>rest. polls (map (domain_at args) (i # js)) (filter ?nl ps1 @ rest)
                     = polls [] rest)"
      using False e by simp
    from ps1 e c d show ?thesis by (intro exI [of _ ps1] conjI) simp_all
  qed
qed

lemma range3_index: "n mod 3 = 0 \<Longrightarrow> i \<in> set (range3 n) \<Longrightarrow> i + 2 < n"
  using range3_bound [of i n] by simp

text \<open>
  C1. For a flat list of triples, whatever the outcome of \<open>create_all_txt_records\<close>, its
  events are a create phase followed by a wait phase. The create phase holds provider
  requests and log lines only. The wait phase is empty (the run ended in the create
  phase or on \<open>CF_SETTLE_TIME\<close>), or begins after the create loop has returned for all
  triples: then it is the settle log line alone when \<open>time.sleep\<close> rejects a negative
  length, or the settle log line, the settle sleep and the poll phase. The poll phase
  holds DNS queries, log lines and sleeps of 30 seconds only, and its queries go through
  the domains in input order as \<open>polls\<close> reads them: a domain is queried again, 30 seconds
  later, until \<open>_has_dns_propagated\<close> returns \<open>True\<close>, and the next domain is queried only
  then. The function returns exactly when all domains are confirmed.
\<close>

theorem create_all_order:
  assumes "length args mod 3 = 0"
    and "create_all_txt_records fuel x g args t = (r, t')"
  shows "\<exists>cs ws. t' = t @ cs @ ws \<and> list_all provider_or_log cs
      \<and> (ws = [] \<and> r \<noteq> Ret ()
        \<or> (\<exists>n. create_records x g args t = (Ret (), t @ cs) \<and> n < 0
               \<and> ws = [Log INFO (settling_msg x n)] \<and> r = Raise ValueError)
        \<or> (\<exists>n ps rem. create_records x g args t = (Ret (), t @ cs)
               \<and> ws = Log INFO (settling_msg x n) # Sleep n # ps
               \<and> list_all poll_or_log ps
               \<and> polls (domains args) (filter (\<lambda>e. \<not> is_log e) ps) = Some rem
               \<and> (r = Ret ()) = (rem = [])))"
proof (cases "py_int x (case environ g ''CF_SETTLE_TIME'' of None \<Rightarrow> ''10'' | Some v \<Rightarrow> v)")
  case None
  then have "r = Raise ValueError" "t' = t @ [] @ []"
    using assms(2) by (simp_all add: create_all_txt_records_def raise_def)
  then show ?thesis by (intro exI [of _ "[]"] conjI disjI1) simp_all
next
  case (Some n)
  let ?after = "io_then (logger INFO (settling_msg x n))
                 (io_then (time_sleep n) (await_records fuel x g args))"
  have all: "create_all_txt_records fuel x g args t
               = io_then (create_records x g args) ?after t"
    by (simp add: create_all_txt_records_def Some)
  obtain r1 t1 where c: "create_records x g args t = (r1, t1)"
    by (cases "create_records x g args t")
  from addsD [OF adds_create_records c] obtain cs where
    cs: "t1 = t @ cs" "list_all provider_or_log cs" by (elim exE conjE)
  show ?thesis
  proof (cases "r1 = Ret ()")
    case False
    then have "io_then (create_records x g args) ?after t = (r1, t1)"
      using c by (cases r1) (simp_all add: io_then_def io_bind_def)
    with assms(2) all have "r = r1" "t' = t @ cs @ []" using cs(1) by simp_all
    with False cs(2) show ?thesis by (intro exI [of _ cs] exI [of _ "[]"] conjI disjI1) simp_all
  next
    case True
    with c cs(1) have c': "create_records x g args t = (Ret (), t @ cs)" by simp
    have rest: "(r, t') = io_then (time_sleep n) (await_records fuel x g args)
                            (t @ cs @ [Log INFO (settling_msg x n)])"
      using assms(2) [symmetric] unfolding all
      by (simp add: io_then_def [of "create_records x g args"] io_bind_def c')
    show ?thesis
    proof (cases "n < 0")
      case neg: True
      then have "r = Raise ValueError" "t' = t @ cs @ [Log INFO (settling_msg x n)]"
        using rest by (simp_all add: time_sleep_def raise_def)
      with c' neg cs(2) show ?thesis
        by (intro exI [of _ cs] exI [of _ "[Log INFO (settling_msg x n)]"] conjI disjI2 disjI1
              exI [of _ n]) simp_all
    next
      case pos: False
      let ?t2 = "t @ cs @ [Log INFO (settling_msg x n), Sleep n]"
      have aw: "for_each (poll fuel x g args) (range3 (length args)) ?t2 = (r, t')"
        using rest pos by (simp add: time_sleep_def io_then_def io_bind_def emit_def
              await_records_def)
      have ix: "\<forall>i\<in>set (range3 (length args)). i + 2 < length args"
        using range3_index [OF assms(1)] by blast
      from await_shape [OF ix aw] obtain ps where
        ps: "t' = ?t2 @ ps" "list_all poll_or_log ps"
        and a1: "r = Ret () \<longrightarrow>
           (\<forall>rest. polls (domains args) (filter (\<lambda>e. \<not> is_log e) ps @ rest) = polls [] rest)"
        and a2: "r \<noteq> Ret () \<longrightarrow>
           (\<exists>rem. rem \<noteq> [] \<and> polls (domains args) (filter (\<lambda>e. \<not> is_log e) ps) = Some rem)"
        unfolding domains_def by (elim exE conjE)
      have "\<exists>rem. polls (domains args) (filter (\<lambda>e. \<not> is_log e) ps) = Some rem
                 \<and> (r = Ret ()) = (rem = [])"
      proof (cases "r = Ret ()")
        case True
        with a1 have "\<forall>rest. polls (domains args) (filter (\<lambda>e. \<not> is_log e) ps @ rest)
                        = polls [] rest" by simp
        from this [rule_format, of "[]"] show ?thesis using True by simp
      next
        case False
        with a2 show ?thesis by auto
      qed
      then obtain rem where
        rem: "polls (domains args) (filter (\<lambda>e. \<not> is_log e) ps) = Some rem"
             "(r = Ret ()) = (rem = [])" by (elim exE conjE)
      have w: "t' = t @ cs @ (Log INFO (settling_msg x n) # Sleep n # ps)"
        using ps(1) by simp
      show ?thesis
        by (intro exI [of _ cs] exI [of _ "Log INFO (settling_msg x n) # Sleep n # ps"] conjI
              disjI2 exI [of _ n] exI [of _ ps] exI [of _ rem])
           (rule w cs(2) c' refl ps(2) rem)+
    qed
  qed
qed


text \<open>
  Fuel only cuts a run short: an outcome other than \<open>Blocked\<close> is the outcome with any
  larger fuel.
\<close>

lemma wait_propagated_fuel:
  "wait_propagated n x g name token t = (r, t') \<Longrightarrow> r \<noteq> Blocked \<Longrightarrow>
     wait_propagated (n + k) x g name token t = (r, t')"
proof (induction n arbitrary: t)
  case 0
  then show ?case by simp
next
  case (Suc n)
  obtain r0 t0 where h: "has_dns_propagated x g name token t = (r0, t0)"
    by (cases "has_dns_propagated x g name token t")
  show ?case
  proof (cases r0)
    case (Ret b)
    show ?thesis
    proof (cases b)
      case True
      with Suc.prems(1) h Ret show ?thesis by (simp add: io_bind_def)
    next
      case False
      let ?t2 = "t0 @ [Log INFO '' + DNS not propagated, waiting 30s...'', Sleep 30]"
      have "wait_propagated n x g name token ?t2 = (r, t')"
        using Suc.prems(1) h Ret False
        by (simp add: io_bind_def io_then_def logger_def emit_def time_sleep_def)
      from Suc.IH [OF this Suc.prems(2)] show ?thesis
        using h Ret False
        by (simp add: io_bind_def io_then_def logger_def emit_def time_sleep_def)
    qed
  next
    case (Raise e)
    with Suc.prems(1) h show ?thesis by (simp add: io_bind_def)
  next
    case Blocked
    with Suc.prems(1) h show ?thesis by (simp add: io_bind_def)
  qed
qed

lemma for_each_fuel:
  assumes "\<And>i t r t'. body n i t = (r, t') \<Longrightarrow> r \<noteq> Blocked \<Longrightarrow> body (n + k) i t = (r, t')"
  shows "for_each (body n) js t = (r, t') \<Longrightarrow> r \<noteq> Blocked \<Longrightarrow>
           for_each (body (n + k)) js t = (r, t')"
proof (induction js arbitrary: t)
  case Nil
  then show ?case by simp
next
  case (Cons i js)
  obtain r1 t1 where b: "body n i t = (r1, t1)" by (cases "body n i t")
  show ?case
  proof (cases r1)
    case (Ret u)
    from assms [OF b] Ret have b': "body (n + k) i t = (Ret u, t1)" by simp
    from Cons.prems(1) b Ret have "for_each (body n) js t1 = (r, t')"
      by (simp add: io_then_def io_bind_def)
    from Cons.IH [OF this Cons.prems(2)] b' show ?thesis
      by (simp add: io_then_def io_bind_def)
  next
    case (Raise e)
    from assms [OF b] Raise have b': "body (n + k) i t = (Raise e, t1)" by simp
    from Cons.prems(1) b Raise b' show ?thesis by (auto simp: io_then_def io_bind_def)
  next
    case Blocked
    with Cons.prems b show ?thesis by (simp add: io_then_def io_bind_def)
  qed
qed

lemma create_all_fuel:
  assumes "create_all_txt_records n x g args t = (r, t')" and "r \<noteq> Blocked"
  shows "create_all_txt_records (n + k) x g args t = (r, t')"
proof (cases "py_int x (case environ g ''CF_SETTLE_TIME'' of None \<Rightarrow> ''10'' | Some v \<Rightarrow> v)")
  case None
  with assms(1) show ?thesis by (simp add: create_all_txt_records_def)
next
  case (Some s)
  have p: "poll n x g args i t = (r, t') \<Longrightarrow> r \<noteq> Blocked \<Longrightarrow> poll (n + k) x g args i t = (r, t')"
    for i t r t'
    by (auto simp: poll_def wait_propagated_fuel)
  have aw: "await_records n x g args t = (r, t') \<Longrightarrow> r \<noteq> Blocked
              \<Longrightarrow> await_records (n + k) x g args t = (r, t')" for t r t'
    unfolding await_records_def
    by (rule for_each_fuel [where body = "\<lambda>n. poll n x g args"]) (rule p)
  let ?m = "io_then (create_records x g args)
             (io_then (logger INFO (settling_msg x s)) (time_sleep s))"
  have split: "create_all_txt_records f x g args = io_then ?m (await_records f x g args)" for f
    by (simp add: create_all_txt_records_def Some io_then_assoc)
  obtain r1 t1 where m: "?m t = (r1, t1)" by (cases "?m t")
  show ?thesis
  proof (cases r1)
    case (Ret u)
    with assms(1) m have "await_records n x g args t1 = (r, t')"
      by (simp add: split io_then_def [of ?m] io_bind_def)
    from aw [OF this assms(2)] m Ret show ?thesis
      by (simp add: split io_then_def [of ?m] io_bind_def)
  next
    case (Raise e)
    with assms(1) m show ?thesis by (auto simp: split io_then_def [of ?m] io_bind_def)
  next
    case Blocked
    with assms(1) m show ?thesis by (simp add: split io_then_def [of ?m] io_bind_def)
  qed
qed

theorem create_all_order_witness:
  "fst (create_all_txt_records 2 example_platform example_globals
          [''example.com'', ''c'', ''tok123''] []) = Ret ()
 \<and> (\<exists>cs ws. snd (create_all_txt_records 2 example_platform example_globals
                    [''example.com'', ''c'', ''tok123''] []) = [] @ cs @ ws
      \<and> list_all provider_or_log cs
      \<and> (\<exists>n ps rem. create_records example_platform example_globals
                       [''example.com'', ''c'', ''tok123''] [] = (Ret (), [] @ cs)
               \<and> ws = Log INFO (settling_msg example_platform n) # Sleep n # ps
               \<and> list_all poll_or_log ps
               \<and> polls (domains [''example.com'', ''c'', ''tok123''])
                    (filter (\<lambda>e. \<not> is_log e) ps) = Some rem
               \<and> rem = []))"
proof -
  let ?args = "[''example.com'', ''c'', ''tok123'']"
  let ?run = "create_all_txt_records 2 example_platform example_globals ?args []"
  have r: "fst ?run = Ret ()" by code_simp
  have len: "length ?args mod 3 = 0" by simp
  have run: "?run = (fst ?run, snd ?run)" by simp
  from create_all_order [OF len run] r show ?thesis
    by (simp only: simp_thms outcome.distinct list.simps)
qed

end
